theory Spec2Isabelle
  imports Complex_Main
begin

unbundle bit_operations_syntax

section \<open>The RPC cache worker (\<^verbatim>\<open>src/index.ts\<close>)\<close>

text \<open>
  The worker is one module: the helper \<^verbatim>\<open>sha1\<close>, the table \<^verbatim>\<open>ALLOWED_ORIGINS\<close>, the
  constant \<^verbatim>\<open>CACHE_SECONDS\<close>, the function \<^verbatim>\<open>cacheKeyForRequestAndBody\<close> and the
  \<^verbatim>\<open>fetch\<close> handler. Strings are byte strings (a JavaScript string in its UTF-8
  encoding). What the platform provides (\<^verbatim>\<open>JSON.parse\<close>, \<^verbatim>\<open>JSON.stringify\<close>, the edge
  cache, the origin) is a parameter of the model, the record \<open>host\<close>; the digest is
  MD5 as RFC 1321 defines it; a thrown exception is a value of type \<open>error\<close>.
\<close>

subsection \<open>JSON values, errors, requests and responses\<close>

text \<open>
  A parsed JSON value. A number of JSON is a finite double, hence a rational; an object
  keeps its members in insertion order, as a JavaScript object does.
\<close>

datatype json =
    JNull
  | JBool bool
  | JNum rat
  | JStr string
  | JArr "json list"
  | JObj "(string \<times> json) list"

text \<open>The exceptions of the module: what \<^verbatim>\<open>JSON.parse\<close> and the \<^verbatim>\<open>in\<close> operator throw, the
  two \<^verbatim>\<open>new Error(...)\<close> of the handler, and a failed \<^verbatim>\<open>fetch\<close>. Each carries its message.\<close>

datatype error =
    SyntaxError string
  | TypeError string
  | Error string
  | NetworkError string

fun message :: "error \<Rightarrow> string" where
  "message (SyntaxError m) = m"
| "message (TypeError m) = m"
| "message (Error m) = m"
| "message (NetworkError m) = m"

type_synonym headers = "(string \<times> string) list"

record url =
  url_origin :: string
  pathname :: string
  search :: string

definition url_toString :: "url \<Rightarrow> string" where
  "url_toString u = url_origin u @ pathname u @ search u"

record request =
  req_method :: string
  req_url :: url
  req_headers :: headers
  req_body :: string

record http_response =
  resp_status :: nat
  resp_headers :: headers
  resp_body :: string

text \<open>The platform: \<open>Inl\<close> is a thrown exception or a rejected promise.\<close>

record host =
  JSON_parse :: "string \<Rightarrow> error + json"
  JSON_stringify :: "json \<Rightarrow> string"
  cache_match :: "request \<Rightarrow> http_response option"
  origin_fetch :: "request \<Rightarrow> error + http_response"

subsection \<open>Strings and headers\<close>

definition toLowerCase_char :: "char \<Rightarrow> char" where
  "toLowerCase_char c =
     (case map_of (zip ''ABCDEFGHIJKLMNOPQRSTUVWXYZ'' ''abcdefghijklmnopqrstuvwxyz'') c of
        Some d \<Rightarrow> d
      | None \<Rightarrow> c)"

definition toUpperCase_char :: "char \<Rightarrow> char" where
  "toUpperCase_char c =
     (case map_of (zip ''abcdefghijklmnopqrstuvwxyz'' ''ABCDEFGHIJKLMNOPQRSTUVWXYZ'') c of
        Some d \<Rightarrow> d
      | None \<Rightarrow> c)"

definition toLowerCase :: "string \<Rightarrow> string" where
  "toLowerCase s = map toLowerCase_char s"

definition toUpperCase :: "string \<Rightarrow> string" where
  "toUpperCase s = map toUpperCase_char s"

definition startsWith :: "string \<Rightarrow> string \<Rightarrow> bool" where
  "startsWith s p = (take (length p) s = p)"

fun join :: "string \<Rightarrow> string list \<Rightarrow> string" where
  "join sep [] = []"
| "join sep [x] = x"
| "join sep (x # y # ys) = x @ sep @ join sep (y # ys)"

text \<open>\<^verbatim>\<open>Headers.get\<close>: names compare without case, the values of a repeated name are joined
  with a comma and a space, an absent name gives \<^verbatim>\<open>null\<close>.\<close>

definition headers_get :: "headers \<Rightarrow> string \<Rightarrow> string option" where
  "headers_get hs name =
     (case filter (\<lambda>(k, v). toLowerCase k = toLowerCase name) hs of
        [] \<Rightarrow> None
      | kvs \<Rightarrow> Some (join '', '' (map snd kvs)))"

definition headers_append :: "headers \<Rightarrow> string \<Rightarrow> string \<Rightarrow> headers" where
  "headers_append hs name v = hs @ [(name, v)]"

text \<open>\<^verbatim>\<open>new Response(body, {status, headers})\<close>: a string body with no content type given is
  typed as plain text; a \<^verbatim>\<open>null\<close> or \<^verbatim>\<open>undefined\<close> body is empty and adds no header.\<close>

definition new_Response :: "string option \<Rightarrow> nat \<Rightarrow> headers \<Rightarrow> http_response" where
  "new_Response b st hs =
     (case b of
        None \<Rightarrow> \<lparr>resp_status = st, resp_headers = hs, resp_body = []\<rparr>
      | Some s \<Rightarrow>
          \<lparr>resp_status = st,
           resp_headers =
             (if headers_get hs ''content-type'' = None
              then headers_append hs ''content-type'' ''text/plain;charset=UTF-8'' else hs),
           resp_body = s\<rparr>)"

subsection \<open>The digest: \<^verbatim>\<open>sha1\<close>, which is MD5 in hexadecimal\<close>

text \<open>
  \<^verbatim>\<open>crypto.subtle.digest('MD5', bytes)\<close> is MD5 (RFC 1321) on 32-bit words, here naturals
  below \<open>2 ^ 32\<close> with the wrap-around written out.
\<close>

definition md5_K :: "nat list" where
  "md5_K = [
    0xd76aa478, 0xe8c7b756, 0x242070db, 0xc1bdceee, 0xf57c0faf, 0x4787c62a, 0xa8304613, 0xfd469501,
    0x698098d8, 0x8b44f7af, 0xffff5bb1, 0x895cd7be, 0x6b901122, 0xfd987193, 0xa679438e, 0x49b40821,
    0xf61e2562, 0xc040b340, 0x265e5a51, 0xe9b6c7aa, 0xd62f105d, 0x02441453, 0xd8a1e681, 0xe7d3fbc8,
    0x21e1cde6, 0xc33707d6, 0xf4d50d87, 0x455a14ed, 0xa9e3e905, 0xfcefa3f8, 0x676f02d9, 0x8d2a4c8a,
    0xfffa3942, 0x8771f681, 0x6d9d6122, 0xfde5380c, 0xa4beea44, 0x4bdecfa9, 0xf6bb4b60, 0xbebfbc70,
    0x289b7ec6, 0xeaa127fa, 0xd4ef3085, 0x04881d05, 0xd9d4d039, 0xe6db99e5, 0x1fa27cf8, 0xc4ac5665,
    0xf4292244, 0x432aff97, 0xab9423a7, 0xfc93a039, 0x655b59c3, 0x8f0ccc92, 0xffeff47d, 0x85845dd1,
    0x6fa87e4f, 0xfe2ce6e0, 0xa3014314, 0x4e0811a1, 0xf7537e82, 0xbd3af235, 0x2ad7d2bb, 0xeb86d391]"

definition md5_S :: "nat list" where
  "md5_S = [7, 12, 17, 22, 7, 12, 17, 22, 7, 12, 17, 22, 7, 12, 17, 22,
            5, 9, 14, 20, 5, 9, 14, 20, 5, 9, 14, 20, 5, 9, 14, 20,
            4, 11, 16, 23, 4, 11, 16, 23, 4, 11, 16, 23, 4, 11, 16, 23,
            6, 10, 15, 21, 6, 10, 15, 21, 6, 10, 15, 21, 6, 10, 15, 21]"

definition add32 :: "nat \<Rightarrow> nat \<Rightarrow> nat" where
  "add32 a b = (a + b) mod 4294967296"

definition not32 :: "nat \<Rightarrow> nat" where
  "not32 a = 4294967295 - a mod 4294967296"

definition rotl32 :: "nat \<Rightarrow> nat \<Rightarrow> nat" where
  "rotl32 x n = (x * 2 ^ n) mod 4294967296 + x div 2 ^ (32 - n)"

definition md5_F :: "nat \<Rightarrow> nat \<Rightarrow> nat \<Rightarrow> nat \<Rightarrow> nat" where
  "md5_F i b c d =
     (if i < 16 then (b AND c) OR (not32 b AND d)
      else if i < 32 then (d AND b) OR (not32 d AND c)
      else if i < 48 then b XOR c XOR d
      else c XOR (b OR not32 d))"

definition md5_g :: "nat \<Rightarrow> nat" where
  "md5_g i =
     (if i < 16 then i
      else if i < 32 then (5 * i + 1) mod 16
      else if i < 48 then (3 * i + 5) mod 16
      else (7 * i) mod 16)"

type_synonym md5_state = "nat \<times> nat \<times> nat \<times> nat"

fun md5_round :: "nat list \<Rightarrow> md5_state \<Rightarrow> nat \<Rightarrow> md5_state" where
  "md5_round m (a, b, c, d) i =
     (d,
      add32 b (rotl32 (add32 (add32 (add32 (md5_F i b c d) a) (md5_K ! i)) (m ! md5_g i))
                 (md5_S ! i)),
      b, c)"

fun le_word :: "nat list \<Rightarrow> nat" where
  "le_word [] = 0"
| "le_word (x # xs) = x + 256 * le_word xs"

fun chunks :: "nat \<Rightarrow> 'a list \<Rightarrow> 'a list list" where
  "chunks n [] = []"
| "chunks n (x # xs) =
     (if n = 0 then [] else take n (x # xs) # chunks n (drop n (x # xs)))"

fun md5_add :: "md5_state \<Rightarrow> md5_state \<Rightarrow> md5_state" where
  "md5_add (a0, b0, c0, d0) (a, b, c, d) = (add32 a0 a, add32 b0 b, add32 c0 c, add32 d0 d)"

definition md5_block :: "md5_state \<Rightarrow> nat list \<Rightarrow> md5_state" where
  "md5_block st blk = md5_add st (foldl (md5_round (map le_word (chunks 4 blk))) st [0..<64])"

definition le_bytes :: "nat \<Rightarrow> nat \<Rightarrow> nat list" where
  "le_bytes k n = map (\<lambda>i. (n div 256 ^ i) mod 256) [0..<k]"

definition md5_pad :: "nat list \<Rightarrow> nat list" where
  "md5_pad msg =
     msg @ [128] @ replicate ((119 - length msg mod 64) mod 64) 0
         @ le_bytes 8 ((8 * length msg) mod 2 ^ 64)"

fun md5_out :: "md5_state \<Rightarrow> nat list" where
  "md5_out (a, b, c, d) = le_bytes 4 a @ le_bytes 4 b @ le_bytes 4 c @ le_bytes 4 d"

definition md5_digest :: "nat list \<Rightarrow> nat list" where
  "md5_digest msg =
     md5_out (foldl md5_block (0x67452301, 0xefcdab89, 0x98badcfe, 0x10325476)
                (chunks 64 (md5_pad msg)))"

definition hex_digit :: "nat \<Rightarrow> char" where
  "hex_digit n = ''0123456789abcdef'' ! (n mod 16)"

text \<open>\<^verbatim>\<open>b.toString(16).padStart(2, '0')\<close> on a byte.\<close>

definition hex_byte :: "nat \<Rightarrow> string" where
  "hex_byte b = [hex_digit (b div 16), hex_digit b]"

text \<open>\<^verbatim>\<open>sha1\<close> (lines 1-11): encode, digest with MD5, print each byte as two hex digits.\<close>

definition sha1 :: "string \<Rightarrow> string" where
  "sha1 msg = concat (map hex_byte (md5_digest (map of_char msg)))"

subsection \<open>The cache key (lines 22-47)\<close>

text \<open>\<^verbatim>\<open>jsonBody.id = -1\<close> on an object that has the member: the value changes, the
  position does not.\<close>

definition set_id :: "(string \<times> json) list \<Rightarrow> (string \<times> json) list" where
  "set_id kvs = map (\<lambda>(k, v). if k = ''id'' then (k, JNum (- 1)) else (k, v)) kvs"

text \<open>
  Lines 26-33, the body that is hashed. \<^verbatim>\<open>body && body.startsWith('{')\<close> guards the parse;
  \<^verbatim>\<open>JSON.parse\<close> may throw; \<^verbatim>\<open>'id' in jsonBody\<close> is a member test on an object, false on
  an array, and a \<^verbatim>\<open>TypeError\<close> on any other value.
\<close>

definition normalize_body :: "host \<Rightarrow> string \<Rightarrow> error + string" where
  "normalize_body h body0 =
     (if body0 \<noteq> [] \<and> startsWith body0 ''{'' then
        (case JSON_parse h body0 of
           Inl e \<Rightarrow> Inl e
         | Inr jsonBody \<Rightarrow>
             (case jsonBody of
                JObj kvs \<Rightarrow>
                  if ''id'' \<in> set (map fst kvs)
                  then Inr (JSON_stringify h (JObj (set_id kvs)))
                  else Inr body0
              | JArr xs \<Rightarrow> Inr body0
              | _ \<Rightarrow> Inl (TypeError ''Cannot use the in operator on a value that is not an object'')))
      else Inr body0)"

text \<open>
  Lines 35-46: the hash is the digest of a non-empty body and the empty string for an
  empty one; it is appended to the path of the request's URL, and the key is a
  \<^verbatim>\<open>GET\<close> request for that URL (as a string, \<open>url_toString cacheUrl\<close>; the model keeps
  its parts) with the headers of the request.
\<close>

definition cacheKeyForRequestAndBody :: "host \<Rightarrow> request \<Rightarrow> string \<Rightarrow> error + request" where
  "cacheKeyForRequestAndBody h req body0 =
     (case normalize_body h body0 of
        Inl e \<Rightarrow> Inl e
      | Inr body1 \<Rightarrow>
          (let hash = (if body1 \<noteq> [] then sha1 body1 else []);
               cacheUrl = (req_url req)\<lparr>pathname := pathname (req_url req) @ hash\<rparr>
           in Inr \<lparr>req_method = ''GET'', req_url = cacheUrl,
                   req_headers = req_headers req, req_body = []\<rparr>))"

subsection \<open>The allowed origins (lines 13-17)\<close>

text \<open>
  The three patterns use literals, \<^verbatim>\<open>.+\<close>, sequence and \<^verbatim>\<open>(...)?\<close>. \<open>rmatch r s\<close> lists
  what is left of \<open>s\<close> after each way of matching \<open>r\<close> at its start. \<^verbatim>\<open>.\<close> matches one
  character that is not a line terminator: line feed, carriage return, U+2028 or U+2029.
  In the UTF-8 text of the model a character is a byte with the continuation bytes that
  follow it, and the last two terminators are the bytes \<open>E2 80 A8\<close> and \<open>E2 80 A9\<close>.
  \<^verbatim>\<open>RegExp.test\<close> has no anchor: it succeeds when the pattern matches at the start of
  some character.
\<close>

datatype regex =
    Lit string
  | DotPlus
  | Seq regex regex
  | Opt regex

definition continuation_byte :: "char \<Rightarrow> bool" where
  "continuation_byte c = (let n = (of_char c :: nat) in 128 \<le> n \<and> n < 192)"

fun line_terminator :: "string \<Rightarrow> bool" where
  "line_terminator [] = False"
| "line_terminator (c # cs) =
     (c = CHR 0x0A \<or> c = CHR 0x0D \<or>
      (c = CHR 0xE2 \<and> (take 2 cs = [CHR 0x80, CHR 0xA8] \<or> take 2 cs = [CHR 0x80, CHR 0xA9])))"

fun dot_plus :: "string \<Rightarrow> string list" where
  "dot_plus [] = []"
| "dot_plus (c # cs) =
     (if line_terminator (c # cs) then []
      else if cs \<noteq> [] \<and> continuation_byte (hd cs) then dot_plus cs
      else cs # dot_plus cs)"

fun rmatch :: "regex \<Rightarrow> string \<Rightarrow> string list" where
  "rmatch (Lit l) s = (if startsWith s l then [drop (length l) s] else [])"
| "rmatch DotPlus s = dot_plus s"
| "rmatch (Seq r1 r2) s = concat (map (rmatch r2) (rmatch r1 s))"
| "rmatch (Opt r) s = rmatch r s @ [s]"

fun regex_test :: "regex \<Rightarrow> string \<Rightarrow> bool" where
  "regex_test r [] = (rmatch r [] \<noteq> [])"
| "regex_test r (c # cs) =
     ((\<not> continuation_byte c \<and> rmatch r (c # cs) \<noteq> []) \<or> regex_test r cs)"

definition ALLOWED_ORIGINS :: "regex list" where
  "ALLOWED_ORIGINS =
     [Seq (Lit ''localhost:'') DotPlus,
      Seq (Opt (Seq DotPlus (Lit ''.''))) (Lit ''daodao.zone''),
      Seq DotPlus (Lit ''-da0da0.vercel.app'')]"

text \<open>\<^verbatim>\<open>ALLOWED_ORIGINS.some((r) => r.test(origin))\<close>.\<close>

definition origin_allowed :: "string \<Rightarrow> bool" where
  "origin_allowed origin = list_ex (\<lambda>r. regex_test r origin) ALLOWED_ORIGINS"

text \<open>The spread \<^verbatim>\<open>...(allowed && {'Access-Control-Allow-Origin': origin})\<close>.\<close>

definition cors_headers :: "string \<Rightarrow> headers" where
  "cors_headers origin =
     (if origin_allowed origin then [(''Access-Control-Allow-Origin'', origin)] else [])"

subsection \<open>The handler (lines 51-229)\<close>

fun show_nat :: "nat \<Rightarrow> string" where
  "show_nat n =
     (if n < 10 then [''0123456789'' ! n]
      else show_nat (n div 10) @ [''0123456789'' ! (n mod 10)])"

definition CACHE_SECONDS :: nat where
  "CACHE_SECONDS = 1"

text \<open>An element of \<^verbatim>\<open>bodiesWithResponses\<close>; \<open>None\<close> is \<^verbatim>\<open>undefined\<close>.\<close>

record entry =
  body :: string
  index :: nat
  response :: "string option"
  cached :: bool

text \<open>\<^verbatim>\<open>Promise.all\<close> over a list: all results, or the first failure.\<close>

fun sequence :: "(error + 'a) list \<Rightarrow> error + 'a list" where
  "sequence [] = Inr []"
| "sequence (x # xs) =
     (case x of
        Inl e \<Rightarrow> Inl e
      | Inr v \<Rightarrow> (case sequence xs of Inl e \<Rightarrow> Inl e | Inr vs \<Rightarrow> Inr (v # vs)))"

text \<open>Lines 61-73: the bodies of the calls. Only the exact content type
  \<^verbatim>\<open>application/json\<close> is parsed; any other request is one call, its text.\<close>

definition split_bodies :: "host \<Rightarrow> request \<Rightarrow> error + string list" where
  "split_bodies h req =
     (if headers_get (req_headers req) ''content-type'' = Some ''application/json'' then
        (case JSON_parse h (req_body req) of
           Inl e \<Rightarrow> Inl e
         | Inr jsonBody \<Rightarrow>
             (case jsonBody of
                JArr bs \<Rightarrow> Inr (map (JSON_stringify h) bs)
              | _ \<Rightarrow> Inr [JSON_stringify h jsonBody]))
      else Inr [req_body req])"

text \<open>\<^verbatim>\<open>!!responseBody\<close>: \<^verbatim>\<open>undefined\<close> and the empty string are falsy.\<close>

definition truthy :: "string option \<Rightarrow> bool" where
  "truthy x = (case x of None \<Rightarrow> False | Some s \<Rightarrow> s \<noteq> [])"

text \<open>Lines 79-92: the lookup of one body. \<^verbatim>\<open>response?.text()\<close> is \<^verbatim>\<open>undefined\<close> when the
  cache has no match.\<close>

definition lookup :: "host \<Rightarrow> request \<Rightarrow> nat \<times> string \<Rightarrow> error + entry" where
  "lookup h req ib =
     (case cacheKeyForRequestAndBody h req (snd ib) of
        Inl e \<Rightarrow> Inl e
      | Inr cacheKey \<Rightarrow>
          (let responseBody = map_option resp_body (cache_match h cacheKey)
           in Inr \<lparr>body = snd ib, index = fst ib, response = responseBody,
                   cached = truthy responseBody\<rparr>))"

definition lookup_all :: "host \<Rightarrow> request \<Rightarrow> string list \<Rightarrow> error + entry list" where
  "lookup_all h req bodies = sequence (map (lookup h req) (enumerate 0 bodies))"

text \<open>
  Lines 97-131: the request to the origin for the uncached entries (at least one).
  The result is the response with the list \<^verbatim>\<open>uncachedResponses\<close>, or the HTML response
  that the handler returns as it is; the second component lists the requests made.
  \<^verbatim>\<open>fetch(request, {headers, body})\<close> sends the request with the body replaced, and with
  its own body when \<^verbatim>\<open>body\<close> is \<^verbatim>\<open>undefined\<close>.
\<close>

datatype dispatched =
    Html http_response
  | Results http_response "json list"

definition dispatch_batch ::
  "host \<Rightarrow> request \<Rightarrow> entry list \<Rightarrow> (error + dispatched) \<times> request list" where
  "dispatch_batch h req uncachedBodies =
     (case sequence (map (\<lambda>b. JSON_parse h (body b)) uncachedBodies) of
        Inl e \<Rightarrow> (Inl e, [])
      | Inr parsed \<Rightarrow>
          (let out = req\<lparr>req_body := JSON_stringify h (JArr parsed)\<rparr> in
           case origin_fetch h out of
             Inl e \<Rightarrow> (Inl e, [out])
           | Inr uncachedResponse \<Rightarrow>
               (case JSON_parse h (resp_body uncachedResponse) of
                  Inl e \<Rightarrow> (Inl e, [out])
                | Inr v \<Rightarrow>
                    (case v of
                       JArr uncachedResponses \<Rightarrow>
                         if length uncachedBodies \<noteq> length uncachedResponses
                         then (Inl (Error ''Batched responses do not matched uncached requests.''),
                               [out])
                         else (Inr (Results uncachedResponse uncachedResponses), [out])
                     | _ \<Rightarrow>
                         (Inl (Error ''Batched responses should be an array of responses.''),
                          [out])))))"

definition dispatch_single ::
  "host \<Rightarrow> request \<Rightarrow> entry \<Rightarrow> (error + dispatched) \<times> request list" where
  "dispatch_single h req b =
     (let out = (if body b = [] then req else req\<lparr>req_body := body b\<rparr>) in
      case origin_fetch h out of
        Inl e \<Rightarrow> (Inl e, [out])
      | Inr uncachedResponse \<Rightarrow>
          if headers_get (resp_headers uncachedResponse) ''content-type'' = Some ''text/html''
          then (Inr (Html uncachedResponse), [out])
          else (case JSON_parse h (resp_body uncachedResponse) of
                  Inl e \<Rightarrow> (Inl e, [out])
                | Inr v \<Rightarrow> (Inr (Results uncachedResponse [v]), [out])))"

fun dispatch ::
  "host \<Rightarrow> request \<Rightarrow> entry list \<Rightarrow> ((error + dispatched) \<times> request list) option" where
  "dispatch h req [] = None"
| "dispatch h req [b] = Some (dispatch_single h req b)"
| "dispatch h req bs = Some (dispatch_batch h req bs)"

text \<open>
  Lines 135-152, for one uncached entry and its result: the text that is cached, the
  write to the cache (\<^verbatim>\<open>new Response(responseBody, uncachedResponse)\<close> takes status and
  headers from the origin's response, then \<^verbatim>\<open>Cache-Control\<close> is appended) and the entry
  that is updated. The checks of the \<^verbatim>\<open>Response\<close> constructor on the status are
  outside the model.
\<close>

type_synonym cache_put = "request \<times> http_response"

definition write_one ::
  "host \<Rightarrow> request \<Rightarrow> http_response \<Rightarrow> entry \<times> json \<Rightarrow> error + cache_put \<times> nat \<times> string" where
  "write_one h req uncachedResponse bv =
     (let responseBody = JSON_stringify h (snd bv) in
      case cacheKeyForRequestAndBody h req (body (fst bv)) of
        Inl e \<Rightarrow> Inl e
      | Inr cacheKey \<Rightarrow>
          (let r = new_Response (Some responseBody) (resp_status uncachedResponse)
                     (resp_headers uncachedResponse);
               r' = r\<lparr>resp_headers :=
                        headers_append (resp_headers r) ''Cache-Control''
                          (''s-maxage='' @ show_nat CACHE_SECONDS)\<rparr>
           in Inr ((cacheKey, r'), index (fst bv), responseBody)))"

text \<open>\<^verbatim>\<open>bodiesWithResponses[index].response = responseBody\<close>, for each callback that
  ran to its end.\<close>

fun update_responses :: "entry list \<Rightarrow> (error + cache_put \<times> nat \<times> string) list \<Rightarrow> entry list" where
  "update_responses es [] = es"
| "update_responses es (Inl e # ws) = update_responses es ws"
| "update_responses es (Inr (p, i, responseBody) # ws) =
     update_responses (es[i := (es ! i)\<lparr>response := Some responseBody\<rparr>]) ws"

fun puts_of :: "(error + cache_put \<times> nat \<times> string) list \<Rightarrow> cache_put list" where
  "puts_of [] = []"
| "puts_of (Inl e # ws) = puts_of ws"
| "puts_of (Inr (p, i, responseBody) # ws) = p # puts_of ws"

text \<open>
  Lines 134-153. \<^verbatim>\<open>uncachedResponses[queryIndex]\<close> pairs the uncached entries with the
  results by position; \<open>dispatch\<close> gives a list of the same length. The callbacks run
  independently: each one that does not throw issues its \<^verbatim>\<open>cache.put\<close>, and the first
  failure, if there is one, is what \<^verbatim>\<open>Promise.all\<close> throws.
\<close>

definition write_back ::
  "host \<Rightarrow> request \<Rightarrow> http_response \<Rightarrow> json list \<Rightarrow> entry list \<Rightarrow> entry list
     \<Rightarrow> (error + entry list) \<times> cache_put list" where
  "write_back h req uncachedResponse uncachedResponses uncachedBodies bodiesWithResponses =
     (let ws = map (write_one h req uncachedResponse) (zip uncachedBodies uncachedResponses)
      in (case sequence ws of
            Inl e \<Rightarrow> Inl e
          | Inr _ \<Rightarrow> Inr (update_responses bodiesWithResponses ws),
          puts_of ws))"

text \<open>\<^verbatim>\<open>response && JSON.parse(response)\<close>: \<^verbatim>\<open>undefined\<close> stays, and is \<^verbatim>\<open>null\<close> in the
  serialised array; the empty string stays; any other text is parsed.\<close>

definition parse_response :: "host \<Rightarrow> entry \<Rightarrow> error + json" where
  "parse_response h b =
     (case response b of
        None \<Rightarrow> Inr JNull
      | Some s \<Rightarrow> if s = [] then Inr (JStr []) else JSON_parse h s)"

text \<open>Lines 156-190: the response to the client, from the completed entries.\<close>

definition assemble :: "host \<Rightarrow> string \<Rightarrow> entry list \<Rightarrow> error + http_response" where
  "assemble h origin bodiesWithResponses =
     (if length bodiesWithResponses = 1 then
        (let b = bodiesWithResponses ! 0 in
         Inr (new_Response (response b) 200
                ([(''Content-Type'', ''application/json''),
                  (''Cached'', JSON_stringify h (JBool (cached b)))]
                 @ cors_headers origin)))
      else
        (case sequence (map (parse_response h) bodiesWithResponses) of
           Inl e \<Rightarrow> Inl e
         | Inr vs \<Rightarrow>
             Inr (new_Response (Some (JSON_stringify h (JArr vs))) 200
                    ([(''Content-Type'', ''application/json''),
                      (''Cached'',
                       JSON_stringify h
                         (JArr (map (\<lambda>b. JNum (of_nat (index b)))
                                  (filter cached bodiesWithResponses))))]
                     @ cors_headers origin))))"

text \<open>
  How the body of the \<^verbatim>\<open>try\<close> block ends: it returns a response, it throws (to the
  \<^verbatim>\<open>catch\<close>), or it returns the promise of the pass-through \<^verbatim>\<open>fetch(request)\<close> of line
  222, which is not awaited: when that promise rejects, the \<^verbatim>\<open>try\<close> block has been left
  and the promise of the handler rejects.
\<close>

datatype completion =
    Returned http_response
  | Thrown error
  | Rejected error

record run =
  outcome :: completion
  puts :: "cache_put list"
  origin_calls :: "request list"

definition finish :: "error + http_response \<Rightarrow> completion" where
  "finish x = (case x of Inl e \<Rightarrow> Thrown e | Inr r \<Rightarrow> Returned r)"

text \<open>
  Lines 61-154: the entries with their responses filled in, or the HTML response of the
  origin that is returned as it is; with the writes to the cache that were issued and
  the requests that were made to the origin.
\<close>

datatype resolved =
    Entries "entry list"
  | Passthrough http_response

definition resolve :: "host \<Rightarrow> request \<Rightarrow> (error + resolved) \<times> cache_put list \<times> request list" where
  "resolve h req =
     (case split_bodies h req of
        Inl e \<Rightarrow> (Inl e, [], [])
      | Inr bodies \<Rightarrow>
     (case lookup_all h req bodies of
        Inl e \<Rightarrow> (Inl e, [], [])
      | Inr bodiesWithResponses \<Rightarrow>
     (let uncachedBodies = filter (\<lambda>b. \<not> cached b) bodiesWithResponses in
      case dispatch h req uncachedBodies of
        None \<Rightarrow> (Inr (Entries bodiesWithResponses), [], [])
      | Some (Inl e, calls) \<Rightarrow> (Inl e, [], calls)
      | Some (Inr (Html uncachedResponse), calls) \<Rightarrow>
          (Inr (Passthrough uncachedResponse), [], calls)
      | Some (Inr (Results uncachedResponse uncachedResponses), calls) \<Rightarrow>
          (case write_back h req uncachedResponse uncachedResponses uncachedBodies
                  bodiesWithResponses of
             (Inl e, ps) \<Rightarrow> (Inl e, ps, calls)
           | (Inr bodiesWithResponses', ps) \<Rightarrow>
               (Inr (Entries bodiesWithResponses'), ps, calls)))))"

text \<open>Lines 61-190, the branch of \<^verbatim>\<open>GET\<close> and \<^verbatim>\<open>POST\<close>.\<close>

definition fetch_rpc :: "host \<Rightarrow> request \<Rightarrow> string \<Rightarrow> run" where
  "fetch_rpc h req origin =
     (case resolve h req of
        (Inl e, ps, calls) \<Rightarrow> \<lparr>outcome = Thrown e, puts = ps, origin_calls = calls\<rparr>
      | (Inr (Passthrough uncachedResponse), ps, calls) \<Rightarrow>
          \<lparr>outcome = Returned uncachedResponse, puts = ps, origin_calls = calls\<rparr>
      | (Inr (Entries bodiesWithResponses), ps, calls) \<Rightarrow>
          \<lparr>outcome = finish (assemble h origin bodiesWithResponses),
           puts = ps, origin_calls = calls\<rparr>)"

text \<open>Lines 191-220, the branch of \<^verbatim>\<open>OPTIONS\<close>.\<close>

definition fetch_options :: "request \<Rightarrow> string \<Rightarrow> http_response" where
  "fetch_options req origin =
     (case headers_get (req_headers req) ''Access-Control-Request-Headers'' of
        Some corsRequestHeaders \<Rightarrow>
          if origin \<noteq> [] \<and>
             headers_get (req_headers req) ''Access-Control-Request-Method'' \<noteq> None \<and>
             corsRequestHeaders \<noteq> [] \<and>
             origin_allowed origin
          then new_Response None 200
                 [(''Access-Control-Allow-Origin'', origin),
                  (''Access-Control-Allow-Methods'', ''GET,HEAD,POST,OPTIONS''),
                  (''Access-Control-Max-Age'', ''86400''),
                  (''Access-Control-Allow-Headers'', corsRequestHeaders)]
          else new_Response None 200 [(''Allow'', ''GET, HEAD, POST, OPTIONS'')]
      | None \<Rightarrow> new_Response None 200 [(''Allow'', ''GET, HEAD, POST, OPTIONS'')])"

text \<open>Lines 56-222, the body of the \<^verbatim>\<open>try\<close> block. \<^verbatim>\<open>request.headers.get('Origin') || ''\<close>
  is the empty string for a request without the header.\<close>

definition request_origin :: "request \<Rightarrow> string" where
  "request_origin req = (case headers_get (req_headers req) ''Origin'' of None \<Rightarrow> [] | Some v \<Rightarrow> v)"

definition fetch_try :: "host \<Rightarrow> request \<Rightarrow> run" where
  "fetch_try h req =
     (let origin = request_origin req;
          method = toUpperCase (req_method req)
      in if method = ''GET'' \<or> method = ''POST'' then fetch_rpc h req origin
         else if method = ''OPTIONS'' then
           \<lparr>outcome = Returned (fetch_options req origin), puts = [], origin_calls = []\<rparr>
         else
           \<lparr>outcome = (case origin_fetch h req of Inl e \<Rightarrow> Rejected e | Inr r \<Rightarrow> Returned r),
            puts = [], origin_calls = [req]\<rparr>)"

text \<open>
  The handler: the \<^verbatim>\<open>catch\<close> (lines 223-228) logs what the \<^verbatim>\<open>try\<close> block threw and turns
  it into a response with the default status and the text \<^verbatim>\<open>'Error thrown ' + e.message\<close>.
  The result is the response the promise of the handler resolves to, or \<open>Inl\<close> when it
  rejects; with it come the writes to the cache that were issued and the requests that
  were made to the origin.
\<close>

definition fetch_outcome :: "completion \<Rightarrow> error + http_response" where
  "fetch_outcome c =
     (case c of
        Returned r \<Rightarrow> Inr r
      | Thrown e \<Rightarrow> Inr (new_Response (Some (''Error thrown '' @ message e)) 200 [])
      | Rejected e \<Rightarrow> Inl e)"

definition fetch :: "host \<Rightarrow> request \<Rightarrow> (error + http_response) \<times> cache_put list \<times> request list" where
  "fetch h req =
     (let r = fetch_try h req in (fetch_outcome (outcome r), puts r, origin_calls r))"

subsection \<open>What the claims speak of\<close>

text \<open>Two parsed objects that are identical except for the value of the member
  \<^verbatim>\<open>id\<close>: the same names in the same order, and the same value under every other name.\<close>

definition same_except_id :: "(string \<times> json) list \<Rightarrow> (string \<times> json) list \<Rightarrow> bool" where
  "same_except_id o1 o2 =
     list_all2 (\<lambda>kv kv'. fst kv = fst kv' \<and> (fst kv \<noteq> ''id'' \<longrightarrow> snd kv = snd kv')) o1 o2"

subsection \<open>A concrete platform for the examples\<close>

text \<open>
  The examples run the handler on a platform whose serialiser prints the compact form
  \<^verbatim>\<open>JSON.stringify\<close> gives (on the integral numbers and plain strings the examples use),
  and whose parser knows the texts of the examples and rejects every other text.
\<close>

fun show_int :: "int \<Rightarrow> string" where
  "show_int i = (if i < 0 then CHR ''-'' # show_nat (nat (- i)) else show_nat (nat i))"

fun demo_stringify :: "json \<Rightarrow> string" where
  "demo_stringify JNull = ''null''"
| "demo_stringify (JBool b) = (if b then ''true'' else ''false'')"
| "demo_stringify (JNum q) = show_int \<lfloor>q\<rfloor>"
| "demo_stringify (JStr s) = [CHR 0x22] @ s @ [CHR 0x22]"
| "demo_stringify (JArr xs) = ''['' @ join '','' (map demo_stringify xs) @ '']''"
| "demo_stringify (JObj kvs) =
     ''{'' @ join '',''
              (map (\<lambda>kv. [CHR 0x22] @ fst kv @ [CHR 0x22] @ '':'' @ demo_stringify (snd kv)) kvs)
         @ ''}''"

text \<open>The call \<^verbatim>\<open>{"id":i,"method":m}\<close> and the result \<^verbatim>\<open>{"result":s}\<close>.\<close>

definition call :: "rat \<Rightarrow> string \<Rightarrow> json" where
  "call i m = JObj [(''id'', JNum i), (''method'', JStr m)]"

definition result :: "string \<Rightarrow> json" where
  "result s = JObj [(''result'', JStr s)]"

definition demo_values :: "json list" where
  "demo_values =
     [call 1 ''a'', call 2 ''a'', call 2 ''b'', call 3 ''c'',
      result ''ok'', result ''x'', result ''y'', result ''hit'',
      JArr [call 1 ''a''],
      JArr [call 1 ''a'', call 2 ''b''],
      JArr [call 1 ''a'', call 2 ''b'', call 3 ''c''],
      JArr [result ''x''],
      JArr [result ''x'', result ''y'']]"

definition demo_texts :: "(string \<times> json) list" where
  "demo_texts =
     map (\<lambda>v. (demo_stringify v, v)) demo_values @
     [(CHR '' '' # demo_stringify (JObj [(''id'', JNum 1)]), JObj [(''id'', JNum 1)]),
      (CHR '' '' # demo_stringify (JObj [(''id'', JNum 2)]), JObj [(''id'', JNum 2)])]"

definition demo_parse :: "string \<Rightarrow> error + json" where
  "demo_parse s =
     (case map_of demo_texts s of
        Some v \<Rightarrow> Inr v
      | None \<Rightarrow> Inl (SyntaxError ''Unexpected token''))"

definition demo_host ::
  "(request \<Rightarrow> http_response option) \<Rightarrow> (request \<Rightarrow> error + http_response) \<Rightarrow> host" where
  "demo_host c f =
     \<lparr>JSON_parse = demo_parse, JSON_stringify = demo_stringify,
      cache_match = c, origin_fetch = f\<rparr>"

definition demo_request :: "string \<Rightarrow> string \<Rightarrow> string \<Rightarrow> string \<Rightarrow> request" where
  "demo_request m ct origin b =
     \<lparr>req_method = m,
      req_url = \<lparr>url_origin = ''https://rpc.example'', pathname = ''/rpc'', search = []\<rparr>,
      req_headers = [(''content-type'', ct), (''origin'', origin)],
      req_body = b\<rparr>"

definition json_response :: "string \<Rightarrow> http_response" where
  "json_response b =
     \<lparr>resp_status = 200, resp_headers = [(''content-type'', ''application/json'')],
      resp_body = b\<rparr>"

text \<open>An empty cache; a cache that holds the calls \<^verbatim>\<open>a\<close> and \<^verbatim>\<open>c\<close> under their keys; a
  cache whose every entry has an empty body.\<close>

definition cache_empty :: "request \<Rightarrow> http_response option" where
  "cache_empty k = None"

definition cache_a_c :: "request \<Rightarrow> http_response option" where
  "cache_a_c k =
     (if pathname (req_url k) = ''/rpc'' @ sha1 (demo_stringify (call (- 1) ''a''))
         \<or> pathname (req_url k) = ''/rpc'' @ sha1 (demo_stringify (call (- 1) ''c''))
      then Some (json_response (demo_stringify (result ''hit''))) else None)"

definition cache_blank :: "request \<Rightarrow> http_response option" where
  "cache_blank k = Some (json_response [])"

text \<open>An origin that answers every request with the same text; an origin that answers
  only the request with a given body; an origin that is down.\<close>

definition origin_says :: "string \<Rightarrow> request \<Rightarrow> error + http_response" where
  "origin_says b r = Inr (json_response b)"

definition origin_expects :: "string \<Rightarrow> string \<Rightarrow> request \<Rightarrow> error + http_response" where
  "origin_expects t b r =
     (if req_body r = t then Inr (json_response b) else Inl (NetworkError ''unexpected request''))"

definition origin_down :: "request \<Rightarrow> error + http_response" where
  "origin_down r = Inl (NetworkError ''connection refused'')"

text \<open>The requests of the examples: batches of one, two and three calls, and a batch
  sent as plain text; and the entries of a miss and of a hit.\<close>

definition batch_of_one :: request where
  \<open>batch_of_one = demo_request ''POST'' ''application/json'' [] ''[{"id":1,"method":"a"}]''\<close>

definition batch_of_two :: request where
  \<open>batch_of_two =
     demo_request ''POST'' ''application/json'' [] ''[{"id":1,"method":"a"},{"id":2,"method":"b"}]''\<close>

definition batch_of_three :: request where
  \<open>batch_of_three =
     demo_request ''POST'' ''application/json'' []
       ''[{"id":1,"method":"a"},{"id":2,"method":"b"},{"id":3,"method":"c"}]''\<close>

definition text_batch :: request where
  \<open>text_batch =
     demo_request ''POST'' ''text/plain'' [] ''[{"id":1,"method":"a"},{"id":2,"method":"b"}]''\<close>

definition miss :: "nat \<Rightarrow> string \<Rightarrow> entry" where
  "miss i b = \<lparr>body = b, index = i, response = None, cached = False\<rparr>"

definition hit :: "nat \<Rightarrow> string \<Rightarrow> string \<Rightarrow> entry" where
  "hit i b r = \<lparr>body = b, index = i, response = Some r, cached = True\<rparr>"

section \<open>Evaluation\<close>

text \<open>Rules that let the simplifier run the definitions on the literals of the examples,
  and the digests of the texts that the examples hash.\<close>

lemma replicate_num: "replicate (numeral k) x = x # replicate (pred_numeral k) x"
  by (simp add: numeral_eq_Suc)

lemma upt_0_num: "[0..<numeral k] = 0 # [Suc 0..<numeral k]"
  by (simp add: upt_conv_Cons)

lemma upt_1_num: "[Suc 0..<numeral k] = (if Suc 0 < numeral k then Suc 0 # [2..<numeral k] else [])"
  by (subst upt_rec) (simp add: numeral_2_eq_2)

lemmas md5_eval = sha1_def md5_digest_def md5_pad_def le_bytes_def md5_block_def
  md5_F_def md5_g_def md5_K_def md5_S_def rotl32_def add32_def not32_def
  hex_byte_def hex_digit_def replicate_num upt_0_num upt_1_num

lemma sha1_empty: "sha1 [] = ''d41d8cd98f00b204e9800998ecf8427e''"
  by (simp add: md5_eval)

lemma sha1_call_a: \<open>sha1 ''{"id":-1,"method":"a"}'' = ''2563a51b4d95e1a3da365c55e6ec7151''\<close>
  by (simp add: md5_eval)

lemma sha1_call_b: \<open>sha1 ''{"id":-1,"method":"b"}'' = ''6148c8d879ef350cd71504e7b8ca59f9''\<close>
  by (simp add: md5_eval)

lemma sha1_call_c: \<open>sha1 ''{"id":-1,"method":"c"}'' = ''fd699cbf82fe913a25c4669b7421abda''\<close>
  by (simp add: md5_eval)

lemma sha1_space_1: \<open>sha1 '' {"id":1}'' = ''adc339f4c4610afc159e3dd3d31e9ec4''\<close>
  by (simp add: md5_eval)

lemma sha1_space_2: \<open>sha1 '' {"id":2}'' = ''3832c3976a32fdc8a3c6574a2244a6f2''\<close>
  by (simp add: md5_eval)

lemma floor_minus_one_rat: "\<lfloor>- 1 :: rat\<rfloor> = - 1"
  by (simp add: floor_minus)

lemmas demo_eval = call_def result_def demo_values_def demo_texts_def demo_parse_def demo_host_def
  demo_request_def json_response_def floor_minus_one_rat
  toUpperCase_def toUpperCase_char_def toLowerCase_def toLowerCase_char_def headers_get_def
  headers_append_def new_Response_def startsWith_def

lemmas handler_eval = fetch_def fetch_try_def fetch_outcome_def fetch_rpc_def resolve_def
  request_origin_def split_bodies_def lookup_all_def lookup_def truthy_def
  cacheKeyForRequestAndBody_def normalize_body_def set_id_def
  dispatch_single_def dispatch_batch_def write_back_def write_one_def
  assemble_def parse_response_def finish_def cors_headers_def CACHE_SECONDS_def
  enumerate_eq_zip Let_def

section \<open>Facts about the parts of the handler\<close>

subsection \<open>The digest\<close>

lemma length_concat_hex: "length (concat (map hex_byte bs)) = 2 * length bs"
  by (induction bs) (simp_all add: hex_byte_def)

lemma length_md5_out: "length (md5_out st) = 16"
  by (cases st) (simp add: le_bytes_def)

lemma length_sha1: "length (sha1 s) = 32"
  by (simp add: sha1_def md5_digest_def length_concat_hex length_md5_out)

lemma sha1_not_Nil: "sha1 s \<noteq> []"
  using length_sha1 [of s] by auto

subsection \<open>The cache key\<close>

lemma set_id_same:
  "same_except_id o1 o2 \<Longrightarrow> set_id o1 = set_id o2"
  unfolding same_except_id_def
  by (induction o1 o2 rule: list_all2_induct) (auto simp: set_id_def split: prod.splits)

lemma same_except_id_keys:
  "same_except_id o1 o2 \<Longrightarrow> map fst o1 = map fst o2"
  unfolding same_except_id_def
  by (induction o1 o2 rule: list_all2_induct) auto

subsection \<open>The lookups\<close>

lemma sequence_map_Inr: "sequence (map Inr ys) = Inr ys"
  by (induction ys) simp_all

lemma sequence_Inr_D: "sequence xs = Inr ys \<Longrightarrow> xs = map Inr ys"
  by (induction xs arbitrary: ys) (auto split: sum.splits)

lemma sequence_Inr_iff: "sequence xs = Inr ys \<longleftrightarrow> xs = map Inr ys"
  using sequence_map_Inr sequence_Inr_D by auto

lemma lookup_Inr: "lookup h req ib = Inr e \<Longrightarrow> index e = fst ib \<and> body e = snd ib"
  by (auto simp: lookup_def Let_def split: sum.splits)

lemma lookup_all_length: "lookup_all h req bodies = Inr es \<Longrightarrow> length es = length bodies"
proof -
  assume "lookup_all h req bodies = Inr es"
  then have "map (lookup h req) (enumerate 0 bodies) = map Inr es"
    by (simp add: lookup_all_def sequence_Inr_iff)
  then have "length (map (lookup h req) (enumerate 0 bodies)) = length (map Inr es :: (error + entry) list)"
    by simp
  then show ?thesis by simp
qed

lemma lookup_all_nth:
  assumes "lookup_all h req bodies = Inr es" and "i < length bodies"
  shows "lookup h req (i, bodies ! i) = Inr (es ! i)"
proof -
  have eq: "map (lookup h req) (enumerate 0 bodies) = map Inr es"
    using assms(1) by (simp add: lookup_all_def sequence_Inr_iff)
  have len: "length es = length bodies"
    using assms(1) by (rule lookup_all_length)
  have "map (lookup h req) (enumerate 0 bodies) ! i = lookup h req (i, bodies ! i)"
    using assms(2) by (simp add: nth_enumerate_eq)
  moreover have "(map Inr es :: (error + entry) list) ! i = Inr (es ! i)"
    using assms(2) len by simp
  ultimately show ?thesis using eq by simp
qed

lemma lookup_all_index:
  assumes "lookup_all h req bodies = Inr es" and "i < length bodies"
  shows "index (es ! i) = i \<and> body (es ! i) = bodies ! i"
  using lookup_Inr [OF lookup_all_nth [OF assms]] by simp

subsection \<open>The request to the origin\<close>

lemma dispatch_many: "1 < length bs \<Longrightarrow> dispatch h req bs = Some (dispatch_batch h req bs)"
proof -
  assume "1 < length bs"
  then obtain b c cs where "bs = b # c # cs"
    by (cases bs; cases "tl bs") auto
  then show ?thesis by simp
qed

lemma dispatch_batch_result:
  assumes "sequence (map (\<lambda>b. JSON_parse h (body b)) bs) = Inr parsed"
    and "origin_fetch h (req\<lparr>req_body := JSON_stringify h (JArr parsed)\<rparr>) = Inr resp"
  shows "dispatch_batch h req bs =
          ((case JSON_parse h (resp_body resp) of
              Inl e \<Rightarrow> Inl e
            | Inr v \<Rightarrow>
                (case v of
                   JArr xs \<Rightarrow>
                     if length bs \<noteq> length xs
                     then Inl (Error ''Batched responses do not matched uncached requests.'')
                     else Inr (Results resp xs)
                 | _ \<Rightarrow> Inl (Error ''Batched responses should be an array of responses.''))),
           [req\<lparr>req_body := JSON_stringify h (JArr parsed)\<rparr>])"
  using assms by (simp add: dispatch_batch_def Let_def split: sum.splits json.splits)

lemma dispatch_Results_length:
  "dispatch h req bs = Some (Inr (Results r xs), calls) \<Longrightarrow> length xs = length bs"
proof (induction h req bs rule: dispatch.induct)
  case (1 h req)
  then show ?case by simp
next
  case (2 h req b)
  then show ?case
    by (auto simp: dispatch_single_def Let_def split: sum.splits if_splits)
next
  case (3 h req b c cs)
  then show ?case
    by (auto simp: dispatch_batch_def Let_def split: sum.splits json.splits if_splits)
qed

subsection \<open>The entries after the write-back\<close>

lemma map_update_same: "f y = f (xs ! i) \<Longrightarrow> map f (xs[i := y]) = map f xs"
proof (induction xs arbitrary: i)
  case Nil
  show ?case by simp
next
  case (Cons x xs)
  then show ?case by (cases i) simp_all
qed

lemma update_responses_fields:
  "length (update_responses es ws) = length es \<and>
   map cached (update_responses es ws) = map cached es \<and>
   map index (update_responses es ws) = map index es \<and>
   map body (update_responses es ws) = map body es"
proof (induction es ws rule: update_responses.induct)
  case (1 es)
  show ?case by simp
next
  case (2 es e ws)
  then show ?case by simp
next
  case (3 es p i responseBody ws)
  have "map cached (es[i := (es ! i)\<lparr>response := Some responseBody\<rparr>]) = map cached es"
    "map index (es[i := (es ! i)\<lparr>response := Some responseBody\<rparr>]) = map index es"
    "map body (es[i := (es ! i)\<lparr>response := Some responseBody\<rparr>]) = map body es"
    by (simp_all add: map_update_same)
  with 3 show ?case by simp
qed

lemma resolve_unfold:
  assumes "split_bodies h req = Inr bodies" and "lookup_all h req bodies = Inr es"
  shows "resolve h req =
     (case dispatch h req (filter (\<lambda>b. \<not> cached b) es) of
        None \<Rightarrow> (Inr (Entries es), [], [])
      | Some (Inl e, calls) \<Rightarrow> (Inl e, [], calls)
      | Some (Inr (Html uncachedResponse), calls) \<Rightarrow>
          (Inr (Passthrough uncachedResponse), [], calls)
      | Some (Inr (Results uncachedResponse uncachedResponses), calls) \<Rightarrow>
          (case write_back h req uncachedResponse uncachedResponses
                  (filter (\<lambda>b. \<not> cached b) es) es of
             (Inl e, ps) \<Rightarrow> (Inl e, ps, calls)
           | (Inr es', ps) \<Rightarrow> (Inr (Entries es'), ps, calls)))"
  using assms by (simp add: resolve_def Let_def)

lemma resolve_Entries:
  assumes "split_bodies h req = Inr bodies" and "lookup_all h req bodies = Inr es0"
    and "resolve h req = (Inr (Entries es), ps, calls)"
  shows "length es = length es0 \<and> map cached es = map cached es0 \<and>
         map index es = map index es0 \<and> map body es = map body es0"
  using assms(3) unfolding resolve_unfold [OF assms(1,2)]
  by (auto simp: write_back_def Let_def update_responses_fields
           split: option.splits sum.splits dispatched.splits prod.splits)

lemma map_eq_nth: "map f xs = map f ys \<Longrightarrow> i < length xs \<Longrightarrow> f (xs ! i) = f (ys ! i)"
  by (metis length_map nth_map)

lemma fetch_rpc_method:
  assumes "toUpperCase (req_method req) = ''GET'' \<or> toUpperCase (req_method req) = ''POST''"
  shows "fetch_try h req = fetch_rpc h req (request_origin req)"
  using assms by (auto simp: fetch_try_def Let_def)

text \<open>
  The write-back by position: an entry that was a hit is left as the lookup made it, and
  the \<open>k\<close>-th uncached entry, found again through its \<^verbatim>\<open>index\<close>, gets the serialisation
  of the \<open>k\<close>-th result of the origin as its response.
\<close>

lemma update_responses_other:
  "i \<notin> set (map (\<lambda>t. fst (snd t)) ts) \<Longrightarrow> update_responses es (map Inr ts) ! i = es ! i"
proof (induction ts arbitrary: es)
  case Nil
  show ?case by simp
next
  case (Cons t ts)
  obtain p j rb where t: "t = (p, j, rb)" by (cases t) auto
  have "j \<noteq> i" and "i \<notin> set (map (\<lambda>t. fst (snd t)) ts)"
    using Cons.prems t by auto
  then show ?case
    using Cons.IH [of "es[j := (es ! j)\<lparr>response := Some rb\<rparr>]"] t by simp
qed

lemma update_responses_at:
  assumes "distinct (map (\<lambda>t. fst (snd t)) ts)" and "k < length ts"
    and "fst (snd (ts ! k)) < length es"
  shows "response (update_responses es (map Inr ts) ! fst (snd (ts ! k))) = Some (snd (snd (ts ! k)))"
  using assms
proof (induction ts arbitrary: es k)
  case Nil
  then show ?case by simp
next
  case (Cons t ts)
  obtain p j rb where t: "t = (p, j, rb)" by (cases t) auto
  let ?es = "es[j := (es ! j)\<lparr>response := Some rb\<rparr>]"
  show ?case
  proof (cases k)
    case 0
    have "j \<notin> set (map (\<lambda>t. fst (snd t)) ts)"
      using Cons.prems(1) t by simp
    then have "update_responses ?es (map Inr ts) ! j = ?es ! j"
      by (rule update_responses_other)
    moreover have "j < length es"
      using Cons.prems(3) 0 t by simp
    ultimately show ?thesis
      using 0 t by simp
  next
    case (Suc k')
    have "response (update_responses ?es (map Inr ts) ! fst (snd (ts ! k'))) = Some (snd (snd (ts ! k')))"
      using Cons.prems Suc by (intro Cons.IH) auto
    then show ?thesis
      using Suc t by simp
  qed
qed

lemma write_one_Inr:
  "write_one h req resp (b, v) = Inr t \<Longrightarrow> fst (snd t) = index b \<and> snd (snd t) = JSON_stringify h v"
  by (auto simp: write_one_def Let_def split: sum.splits)

lemma distinct_uncached_indices:
  assumes "lookup_all h req bodies = Inr es"
  shows "distinct (map index (filter P es))"
proof -
  have len: "length es = length bodies"
    using assms by (rule lookup_all_length)
  have "map index es = [0..<length es]"
  proof (rule nth_equalityI)
    show "length (map index es) = length [0..<length es]" by simp
  next
    fix i assume "i < length (map index es)"
    then show "map index es ! i = [0..<length es] ! i"
      using lookup_all_index [OF assms, of i] len by simp
  qed
  then have "distinct (map index es)" by simp
  then show ?thesis by (rule distinct_map_filter)
qed

lemma backfill_by_position:
  assumes "split_bodies h req = Inr bodies"
    and "lookup_all h req bodies = Inr looked"
    and "dispatch h req (filter (\<lambda>b. \<not> cached b) looked) = Some (Inr (Results resp rs), calls)"
    and "resolve h req = (Inr (Entries es), ps, calls')"
  shows "(\<forall>i<length looked. cached (looked ! i) \<longrightarrow> es ! i = looked ! i) \<and>
         (\<forall>k<length rs.
            response (es ! index (filter (\<lambda>b. \<not> cached b) looked ! k))
              = Some (JSON_stringify h (rs ! k)))"
proof -
  let ?us = "filter (\<lambda>b. \<not> cached b) looked"
  let ?ws = "map (write_one h req resp) (zip ?us rs)"
  have lrs: "length rs = length ?us"
    using assms(3) by (rule dispatch_Results_length)
  have len: "length looked = length bodies"
    using assms(2) by (rule lookup_all_length)
  from assms(4) obtain ts where ts: "sequence ?ws = Inr ts" and es: "es = update_responses looked ?ws"
    unfolding resolve_unfold [OF assms(1,2)] using assms(3)
    by (auto simp: write_back_def Let_def split: sum.splits)
  have ws: "?ws = map Inr ts"
    using ts by (rule sequence_Inr_D)
  then have lts: "length ts = length ?us"
    using lrs by (metis length_map length_zip min.idem)
  have nth: "fst (snd (ts ! k)) = index (?us ! k) \<and> snd (snd (ts ! k)) = JSON_stringify h (rs ! k)"
    if "k < length ?us" for k
  proof -
    have "?ws ! k = write_one h req resp (?us ! k, rs ! k)"
      using that lrs by simp
    moreover have "?ws ! k = Inr (ts ! k)"
      using ws that lts by simp
    ultimately show ?thesis
      using write_one_Inr by metis
  qed
  have idx: "map (\<lambda>t. fst (snd t)) ts = map index ?us"
    by (rule nth_equalityI) (use lts nth in auto)
  have dist: "distinct (map (\<lambda>t. fst (snd t)) ts)"
    unfolding idx using assms(2) by (rule distinct_uncached_indices)
  have hits: "\<forall>i<length looked. cached (looked ! i) \<longrightarrow> es ! i = looked ! i"
  proof (intro allI impI)
    fix i assume i: "i < length looked" and c: "cached (looked ! i)"
    have "i \<notin> set (map index ?us)"
    proof
      assume "i \<in> set (map index ?us)"
      then obtain b where b: "b \<in> set looked" "\<not> cached b" "index b = i" by auto
      then obtain j where j: "j < length looked" "looked ! j = b"
        by (auto simp: in_set_conv_nth)
      then have "index b = j"
        using lookup_all_index [OF assms(2), of j] len by simp
      then show False using b j c by simp
    qed
    then show "es ! i = looked ! i"
      unfolding es ws using idx by (simp add: update_responses_other)
  qed
  have misses: "\<forall>k<length rs. response (es ! index (?us ! k)) = Some (JSON_stringify h (rs ! k))"
  proof (intro allI impI)
    fix k assume k: "k < length rs"
    then have k': "k < length ?us" using lrs by simp
    have "?us ! k \<in> set looked"
      using k' by (metis filter_is_subset nth_mem subsetD)
    then obtain j where j: "j < length looked" "looked ! j = ?us ! k"
      by (auto simp: in_set_conv_nth)
    then have "index (?us ! k) = j"
      using lookup_all_index [OF assms(2), of j] len by simp
    then have r: "fst (snd (ts ! k)) < length looked"
      using nth [OF k'] j by simp
    have "response (update_responses looked (map Inr ts) ! fst (snd (ts ! k))) = Some (snd (snd (ts ! k)))"
      using dist k' lts r by (intro update_responses_at) auto
    then show "response (es ! index (?us ! k)) = Some (JSON_stringify h (rs ! k))"
      unfolding es ws using nth [OF k'] by simp
  qed
  show ?thesis using hits misses by simp
qed

text \<open>
  What follows from the lookups: every call has a key; the indices of the uncached
  entries are the positions of the misses, in order; and the only miss is the entry at
  its index.
\<close>

lemma lookup_key:
  "lookup h req ib = Inr e \<Longrightarrow> \<exists>k. cacheKeyForRequestAndBody h req (snd ib) = Inr k"
  by (cases "cacheKeyForRequestAndBody h req (snd ib)") (simp_all add: lookup_def)

lemma indices_of_filter:
  assumes "\<forall>i<length es. index (es ! i) = i"
  shows "map index (filter P es) = filter (\<lambda>i. P (es ! i)) [0..<length es]"
proof -
  have "filter P es = filter P (map (\<lambda>i. es ! i) [0..<length es])"
    by (simp add: map_nth)
  also have "\<dots> = map (\<lambda>i. es ! i) (filter (\<lambda>i. P (es ! i)) [0..<length es])"
    by (simp add: filter_map comp_def)
  finally have "map index (filter P es) =
      map (\<lambda>i. index (es ! i)) (filter (\<lambda>i. P (es ! i)) [0..<length es])"
    by (simp add: comp_def)
  also have "\<dots> = map (\<lambda>i. i) (filter (\<lambda>i. P (es ! i)) [0..<length es])"
    using assms by (intro map_cong) auto
  finally show ?thesis by simp
qed

lemma the_only_miss:
  assumes "lookup_all h req bodies = Inr es"
    and "filter (\<lambda>b. \<not> cached b) es = [b]"
  shows "index b < length bodies \<and> body b = bodies ! index b \<and> es ! index b = b \<and>
         (\<exists>k. cacheKeyForRequestAndBody h req (body b) = Inr k)"
proof -
  have "b \<in> set (filter (\<lambda>b. \<not> cached b) es)"
    using assms(2) by simp
  then have "b \<in> set es" by simp
  then obtain i where i: "i < length es" "es ! i = b"
    by (auto simp: in_set_conv_nth)
  have len: "length es = length bodies"
    using assms(1) by (rule lookup_all_length)
  have ib: "index (es ! i) = i \<and> body (es ! i) = bodies ! i"
    using lookup_all_index [OF assms(1)] i(1) len by simp
  have "lookup h req (i, bodies ! i) = Inr (es ! i)"
    using lookup_all_nth [OF assms(1)] i(1) len by simp
  then have "\<exists>k. cacheKeyForRequestAndBody h req (bodies ! i) = Inr k"
    using lookup_key by fastforce
  then show ?thesis
    using i ib len by auto
qed

subsection \<open>The assembled response\<close>

lemma assemble_body_single:
  "length es = 1 \<Longrightarrow> assemble h origin es = Inr r \<Longrightarrow>
     resp_body r = (case response (es ! 0) of None \<Rightarrow> [] | Some s \<Rightarrow> s)"
  by (auto simp: assemble_def Let_def new_Response_def split: option.splits)

lemma assemble_body_many:
  assumes "length es \<noteq> 1" and "assemble h origin es = Inr r"
  shows "\<exists>vs. resp_body r = JSON_stringify h (JArr vs) \<and> length vs = length es \<and>
              (\<forall>i<length es. parse_response h (es ! i) = Inr (vs ! i))"
proof -
  from assms obtain vs where vs: "sequence (map (parse_response h) es) = Inr vs"
    and r: "resp_body r = JSON_stringify h (JArr vs)"
    by (auto simp: assemble_def new_Response_def split: sum.splits if_splits)
  have eq: "map (parse_response h) es = map Inr vs"
    using vs by (simp add: sequence_Inr_iff)
  then have len: "length vs = length es"
    by (metis length_map)
  have "\<forall>i<length es. parse_response h (es ! i) = Inr (vs ! i)"
  proof (intro allI impI)
    fix i assume i: "i < length es"
    have "map (parse_response h) es ! i = (map Inr vs :: (error + json) list) ! i"
      using eq by simp
    then show "parse_response h (es ! i) = Inr (vs ! i)"
      using i len by simp
  qed
  then show ?thesis using r len by blast
qed

lemma headers_get_assembled:
  "headers_get ([(''Content-Type'', ct), (''Cached'', c)] @ cors_headers origin) ''Cached'' = Some c"
  "headers_get ([(''Content-Type'', ct), (''Cached'', c)] @ cors_headers origin) ''content-type''
     = Some ct"
  by (simp_all add: headers_get_def cors_headers_def toLowerCase_def toLowerCase_char_def)

lemma resp_headers_assembled:
  "resp_headers (new_Response b st ([(''Content-Type'', ct), (''Cached'', c)] @ cors_headers origin))
     = [(''Content-Type'', ct), (''Cached'', c)] @ cors_headers origin"
  unfolding new_Response_def
  by (cases b) (simp_all only: headers_get_assembled option.case http_response.simps
      option.distinct if_False)

lemma assemble_Cached:
  assumes "assemble h origin es = Inr r"
  shows "headers_get (resp_headers r) ''Cached'' =
           Some (if length es = 1 then JSON_stringify h (JBool (cached (es ! 0)))
                 else JSON_stringify h
                        (JArr (map (\<lambda>b. JNum (of_nat (index b))) (filter cached es))))"
proof (cases "length es = 1")
  case True
  then have "r = new_Response (response (es ! 0)) 200
      ([(''Content-Type'', ''application/json''),
        (''Cached'', JSON_stringify h (JBool (cached (es ! 0))))] @ cors_headers origin)"
    using assms by (simp add: assemble_def Let_def)
  then show ?thesis
    using True by (simp add: resp_headers_assembled headers_get_assembled del: append_Cons)
next
  case False
  then obtain vs where "r = new_Response (Some (JSON_stringify h (JArr vs))) 200
      ([(''Content-Type'', ''application/json''),
        (''Cached'', JSON_stringify h
           (JArr (map (\<lambda>b. JNum (of_nat (index b))) (filter cached es))))]
       @ cors_headers origin)"
    using assms by (auto simp: assemble_def split: sum.splits)
  then show ?thesis
    using False by (simp add: resp_headers_assembled headers_get_assembled del: append_Cons)
qed

lemma hit_indices:
  assumes "\<forall>i<length es. index (es ! i) = i"
  shows "map index (filter cached es) = filter (\<lambda>i. cached (es ! i)) [0..<length es]"
proof -
  have "filter cached es = filter cached (map (\<lambda>i. es ! i) [0..<length es])"
    by (simp add: map_nth)
  also have "\<dots> = map (\<lambda>i. es ! i) (filter (\<lambda>i. cached (es ! i)) [0..<length es])"
    by (simp add: filter_map comp_def)
  finally have "map index (filter cached es) =
      map (\<lambda>i. index (es ! i)) (filter (\<lambda>i. cached (es ! i)) [0..<length es])"
    by (simp add: comp_def)
  also have "\<dots> = map (\<lambda>i. i) (filter (\<lambda>i. cached (es ! i)) [0..<length es])"
    using assms by (intro map_cong) auto
  finally show ?thesis by simp
qed

lemma assemble_headers:
  assumes "assemble h origin es = Inr r"
  shows "\<exists>c. resp_headers r =
           [(''Content-Type'', ''application/json''), (''Cached'', c)] @ cors_headers origin"
proof (cases "length es = 1")
  case True
  then have "r = new_Response (response (es ! 0)) 200
      ([(''Content-Type'', ''application/json''),
        (''Cached'', JSON_stringify h (JBool (cached (es ! 0))))] @ cors_headers origin)"
    using assms by (simp add: assemble_def Let_def)
  then show ?thesis
    by (simp add: resp_headers_assembled del: append_Cons)
next
  case False
  then obtain vs where "r = new_Response (Some (JSON_stringify h (JArr vs))) 200
      ([(''Content-Type'', ''application/json''),
        (''Cached'', JSON_stringify h
           (JArr (map (\<lambda>b. JNum (of_nat (index b))) (filter cached es))))]
       @ cors_headers origin)"
    using assms by (auto simp: assemble_def split: sum.splits)
  then show ?thesis
    by (simp add: resp_headers_assembled del: append_Cons)
qed

lemma headers_get_allow_origin:
  "origin_allowed origin \<Longrightarrow>
     headers_get ([(''Content-Type'', ct), (''Cached'', c)] @ cors_headers origin)
       ''Access-Control-Allow-Origin'' = Some origin"
  by (simp add: headers_get_def cors_headers_def toLowerCase_def toLowerCase_char_def)

subsection \<open>The allowed origins\<close>

lemma regex_test_at:
  "rmatch r t \<noteq> [] \<Longrightarrow> t = [] \<or> \<not> continuation_byte (hd t) \<Longrightarrow> regex_test r (pre @ t)"
proof (induction pre)
  case Nil
  then show ?case by (cases t) auto
next
  case (Cons c pre)
  then show ?case by simp
qed

lemma rmatch_daodao:
  "rmatch (Seq (Opt (Seq DotPlus (Lit ''.''))) (Lit ''daodao.zone'')) (''daodao.zone'' @ post) \<noteq> []"
  by (simp add: startsWith_def)

lemma daodao_starts_a_character:
  "''daodao.zone'' @ post = [] \<or> \<not> continuation_byte (hd (''daodao.zone'' @ post))"
  by (simp add: continuation_byte_def)

lemma origin_allowed_substring: "origin_allowed (pre @ ''daodao.zone'' @ post)"
proof -
  have "regex_test (Seq (Opt (Seq DotPlus (Lit ''.''))) (Lit ''daodao.zone''))
          (pre @ (''daodao.zone'' @ post))"
    using rmatch_daodao daodao_starts_a_character by (rule regex_test_at)
  then show ?thesis
    by (simp add: origin_allowed_def ALLOWED_ORIGINS_def)
qed

lemma origin_allowed_examples:
  "origin_allowed ''https://notdaodao.zone''"
  "origin_allowed ''https://app.daodao.zone''"
  "\<not> origin_allowed ''https://evil.example''"
  by (simp_all add: origin_allowed_def ALLOWED_ORIGINS_def startsWith_def line_terminator.simps continuation_byte_def)

text \<open>A line separator is not matched by \<^verbatim>\<open>.\<close>, whether the pattern is tried at its first
  byte or, as the bytes would allow, inside it; another character of several bytes is.\<close>

lemma origin_allowed_line_separator:
  "\<not> origin_allowed (''localhost:'' @ [CHR 0xE2, CHR 0x80, CHR 0xA8])"
  "\<not> origin_allowed ([CHR 0xE2, CHR 0x80, CHR 0xA9] @ ''-da0da0.vercel.app'')"
  "origin_allowed (''localhost:'' @ [CHR 0xE2, CHR 0x80, CHR 0xA7])"
  "origin_allowed ([CHR 0xC3, CHR 0xA9] @ ''-da0da0.vercel.app'')"
  by (simp_all add: origin_allowed_def ALLOWED_ORIGINS_def startsWith_def continuation_byte_def)

subsection \<open>What the \<^verbatim>\<open>catch\<close> catches\<close>

text \<open>Whatever the branch of \<^verbatim>\<open>GET\<close> and \<^verbatim>\<open>POST\<close> throws becomes a response with
  status 200 and a plain text; and the handler resolves for these methods and for
  \<^verbatim>\<open>OPTIONS\<close>, whatever the platform does.\<close>

lemma rpc_failure_is_caught:
  assumes "toUpperCase (req_method req) = ''GET'' \<or> toUpperCase (req_method req) = ''POST''"
    and "resolve h req = (Inl e, ps, calls)"
  shows "fetch h req =
           (Inr \<lparr>resp_status = 200,
                 resp_headers = [(''content-type'', ''text/plain;charset=UTF-8'')],
                 resp_body = ''Error thrown '' @ message e\<rparr>, ps, calls)"
  using assms(2) fetch_rpc_method [OF assms(1)]
  by (simp add: fetch_def fetch_rpc_def fetch_outcome_def Let_def new_Response_def
      headers_get_def headers_append_def)

lemma rpc_always_responds:
  assumes "toUpperCase (req_method req) \<in> {''GET'', ''POST'', ''OPTIONS''}"
  shows "\<exists>r. fst (fetch h req) = Inr r"
proof (cases "toUpperCase (req_method req) = ''OPTIONS''")
  case True
  then show ?thesis
    by (simp add: fetch_def fetch_try_def fetch_outcome_def Let_def)
next
  case False
  then have m: "toUpperCase (req_method req) = ''GET'' \<or> toUpperCase (req_method req) = ''POST''"
    using assms by auto
  show ?thesis
    unfolding fetch_def fetch_rpc_method [OF m]
    by (auto simp: fetch_rpc_def fetch_outcome_def finish_def Let_def
        split: prod.splits sum.splits resolved.splits)
qed

section \<open>The claims\<close>

subsection \<open>C1: the key does not depend on the value of \<^verbatim>\<open>id\<close>\<close>

text \<open>
  Claim C1, as amended. For every request and every two call bodies that begin with
  \<^verbatim>\<open>{\<close> and parse as objects which have the member \<^verbatim>\<open>id\<close> and are identical except for
  its value, \<^verbatim>\<open>cacheKeyForRequestAndBody\<close> gives the same key: the text that is hashed
  is the serialisation of the object with \<^verbatim>\<open>id\<close> set to \<open>-1\<close>.
\<close>

theorem cache_key_ignores_id:
  assumes "startsWith b1 ''{''" and "startsWith b2 ''{''"
    and "JSON_parse h b1 = Inr (JObj o1)" and "JSON_parse h b2 = Inr (JObj o2)"
    and "''id'' \<in> set (map fst o1)" and "same_except_id o1 o2"
  shows "normalize_body h b1 = Inr (JSON_stringify h (JObj (set_id o1))) \<and>
         normalize_body h b2 = normalize_body h b1 \<and>
         cacheKeyForRequestAndBody h req b2 = cacheKeyForRequestAndBody h req b1"
proof -
  have ne: "b1 \<noteq> []" "b2 \<noteq> []"
    using assms(1,2) by (auto simp: startsWith_def)
  have keys: "''id'' \<in> set (map fst o2)"
    using assms(5) same_except_id_keys [OF assms(6)] by simp
  have n1: "normalize_body h b1 = Inr (JSON_stringify h (JObj (set_id o1)))"
    using ne assms(1,3,5) by (simp add: normalize_body_def)
  have n2: "normalize_body h b2 = Inr (JSON_stringify h (JObj (set_id o2)))"
    using ne assms(2,4) keys by (simp add: normalize_body_def)
  have "normalize_body h b2 = normalize_body h b1"
    using n1 n2 set_id_same [OF assms(6)] by simp
  then show ?thesis
    using n1 by (simp add: cacheKeyForRequestAndBody_def)
qed

text \<open>
  The theorem at the calls \<^verbatim>\<open>{"id":1,"method":"a"}\<close> and \<^verbatim>\<open>{"id":2,"method":"a"}\<close>.
\<close>

theorem cache_key_ignores_id_witness:
  \<open>startsWith ''{"id":1,"method":"a"}'' ''{'' \<and> startsWith ''{"id":2,"method":"a"}'' ''{'' \<and>
   JSON_parse (demo_host cache_empty origin_down) ''{"id":1,"method":"a"}''
     = Inr (JObj [(''id'', JNum 1), (''method'', JStr ''a'')]) \<and>
   JSON_parse (demo_host cache_empty origin_down) ''{"id":2,"method":"a"}''
     = Inr (JObj [(''id'', JNum 2), (''method'', JStr ''a'')]) \<and>
   same_except_id [(''id'', JNum 1), (''method'', JStr ''a'')]
     [(''id'', JNum 2), (''method'', JStr ''a'')] \<and>
   normalize_body (demo_host cache_empty origin_down) ''{"id":1,"method":"a"}''
     = Inr ''{"id":-1,"method":"a"}'' \<and>
   cacheKeyForRequestAndBody (demo_host cache_empty origin_down)
       (demo_request ''POST'' ''application/json'' [] []) ''{"id":2,"method":"a"}''
     = cacheKeyForRequestAndBody (demo_host cache_empty origin_down)
       (demo_request ''POST'' ''application/json'' [] []) ''{"id":1,"method":"a"}''\<close>
proof -
  let ?h = "demo_host cache_empty origin_down"
  have p1: \<open>JSON_parse ?h ''{"id":1,"method":"a"}'' = Inr (JObj [(''id'', JNum 1), (''method'', JStr ''a'')])\<close>
    by (simp add: demo_eval)
  have p2: \<open>JSON_parse ?h ''{"id":2,"method":"a"}'' = Inr (JObj [(''id'', JNum 2), (''method'', JStr ''a'')])\<close>
    by (simp add: demo_eval)
  have s1: \<open>startsWith ''{"id":1,"method":"a"}'' ''{''\<close> and s2: \<open>startsWith ''{"id":2,"method":"a"}'' ''{''\<close>
    by (simp_all add: startsWith_def)
  have m: "''id'' \<in> set (map fst [(''id'', JNum 1), (''method'', JStr ''a'')])"
    by simp
  have e: "same_except_id [(''id'', JNum 1), (''method'', JStr ''a'')] [(''id'', JNum 2), (''method'', JStr ''a'')]"
    by (simp add: same_except_id_def)
  have st: \<open>JSON_stringify ?h (JObj (set_id [(''id'', JNum 1), (''method'', JStr ''a'')])) = ''{"id":-1,"method":"a"}''\<close>
    by (simp add: demo_eval set_id_def)
  show ?thesis
    using cache_key_ignores_id [OF s1 s2 p1 p2 m e, of "demo_request ''POST'' ''application/json'' [] []"]
      p1 p2 s1 s2 e st by simp
qed

text \<open>
  Claim C1 as stated fails for bodies that do not begin with \<^verbatim>\<open>{\<close>: a request that is
  not of content type \<^verbatim>\<open>application/json\<close> contributes its raw text as the call body,
  and the texts \<^verbatim>\<open> {"id":1}\<close> and \<^verbatim>\<open> {"id":2}\<close>, with a leading space, are hashed as they
  are and get different keys.
\<close>

theorem cache_key_leading_space_counterexample:
  \<open>JSON_parse (demo_host cache_empty origin_down) '' {"id":1}'' = Inr (JObj [(''id'', JNum 1)]) \<and>
   JSON_parse (demo_host cache_empty origin_down) '' {"id":2}'' = Inr (JObj [(''id'', JNum 2)]) \<and>
   same_except_id [(''id'', JNum 1)] [(''id'', JNum 2)] \<and>
   cacheKeyForRequestAndBody (demo_host cache_empty origin_down)
       (demo_request ''POST'' ''text/plain'' [] []) '' {"id":1}''
     \<noteq> cacheKeyForRequestAndBody (demo_host cache_empty origin_down)
       (demo_request ''POST'' ''text/plain'' [] []) '' {"id":2}''\<close>
proof -
  let ?h = "demo_host cache_empty origin_down"
  have p1: \<open>JSON_parse ?h '' {"id":1}'' = Inr (JObj [(''id'', JNum 1)])\<close>
    by (simp add: demo_eval)
  have p2: \<open>JSON_parse ?h '' {"id":2}'' = Inr (JObj [(''id'', JNum 2)])\<close>
    by (simp add: demo_eval)
  have e: "same_except_id [(''id'', JNum 1)] [(''id'', JNum 2)]"
    by (simp add: same_except_id_def)
  have k: \<open>cacheKeyForRequestAndBody ?h (demo_request ''POST'' ''text/plain'' [] []) '' {"id":1}''
     \<noteq> cacheKeyForRequestAndBody ?h (demo_request ''POST'' ''text/plain'' [] []) '' {"id":2}''\<close>
    by (simp add: cacheKeyForRequestAndBody_def normalize_body_def startsWith_def demo_request_def
        sha1_space_1 sha1_space_2)
  show ?thesis using p1 p2 e k by simp
qed

subsection \<open>C2: the shape of the response\<close>

text \<open>
  Claim C2, as amended. The calls of a payload are the elements of its array, or the
  payload itself when it is not an array (or is not sent as \<^verbatim>\<open>application/json\<close>). When the
  handler reaches the assembly there is one entry per call, in the order of the calls,
  and the entry at index \<open>i\<close> holds the result for call \<open>i\<close>: for a hit, the text the cache
  gave for the key of call \<open>i\<close>; for the \<open>k\<close>-th miss, the serialisation of the \<open>k\<close>-th element
  of the array the origin answered to the batch of the misses (sent in the order of the
  calls), or, when there is one miss, of the value the origin answered to that call.
  If the payload gives exactly one call (a single call that is not a batch, or a batch of
  one), the body of the response is the result for that call, not wrapped in an array; if
  it gives \<open>N \<noteq> 1\<close> calls, the body is the serialisation of an array of exactly \<open>N\<close>
  elements, and element \<open>i\<close> is the result for the call at index \<open>i\<close>. For \<^verbatim>\<open>GET\<close> and
  \<^verbatim>\<open>POST\<close> that response is what the handler returns.
\<close>

theorem response_shape_follows_call_count:
  assumes "split_bodies h req = Inr bodies"
    and "lookup_all h req bodies = Inr looked"
    and "misses = filter (\<lambda>b. \<not> cached b) looked"
    and "resolve h req = (Inr (Entries es), ps, calls)"
    and "assemble h origin es = Inr r"
  shows "((headers_get (req_headers req) ''content-type'' = Some ''application/json'' \<longrightarrow>
            (\<forall>cs. JSON_parse h (req_body req) = Inr (JArr cs) \<longrightarrow>
                  bodies = map (JSON_stringify h) cs) \<and>
            (\<forall>v. JSON_parse h (req_body req) = Inr v \<and> (\<forall>cs. v \<noteq> JArr cs) \<longrightarrow>
                  bodies = [JSON_stringify h v])) \<and>
          (headers_get (req_headers req) ''content-type'' \<noteq> Some ''application/json'' \<longrightarrow>
            bodies = [req_body req])) \<and>
         length es = length bodies \<and>
         (\<forall>i<length bodies. index (es ! i) = i \<and> body (es ! i) = bodies ! i) \<and>
         (\<forall>i<length bodies. lookup h req (i, bodies ! i) = Inr (looked ! i) \<and>
                            (cached (looked ! i) \<longrightarrow> es ! i = looked ! i)) \<and>
         map index misses = filter (\<lambda>i. \<not> cached (looked ! i)) [0..<length bodies] \<and>
         (\<forall>b. misses = [b] \<longrightarrow>
            (\<forall>resp v. origin_fetch h (if body b = [] then req else req\<lparr>req_body := body b\<rparr>)
                        = Inr resp \<and>
                      JSON_parse h (resp_body resp) = Inr v \<longrightarrow>
               response (es ! index b) = Some (JSON_stringify h v))) \<and>
         (1 < length misses \<longrightarrow>
            (\<forall>parsed resp rs.
               sequence (map (\<lambda>b. JSON_parse h (body b)) misses) = Inr parsed \<and>
               origin_fetch h (req\<lparr>req_body := JSON_stringify h (JArr parsed)\<rparr>) = Inr resp \<and>
               JSON_parse h (resp_body resp) = Inr (JArr rs) \<longrightarrow>
               (\<forall>k<length misses.
                  response (es ! index (misses ! k)) = Some (JSON_stringify h (rs ! k))))) \<and>
         (length bodies = 1 \<longrightarrow>
            resp_body r = (case response (es ! 0) of None \<Rightarrow> [] | Some s \<Rightarrow> s)) \<and>
         (length bodies \<noteq> 1 \<longrightarrow>
            (\<exists>vs. resp_body r = JSON_stringify h (JArr vs) \<and> length vs = length bodies \<and>
                  (\<forall>i<length bodies. parse_response h (es ! i) = Inr (vs ! i)))) \<and>
         ((toUpperCase (req_method req) = ''GET'' \<or> toUpperCase (req_method req) = ''POST'') \<and>
          origin = request_origin req \<longrightarrow>
            fetch h req = (Inr r, ps, calls))"
proof -
  have len0: "length looked = length bodies"
    using assms(2) by (rule lookup_all_length)
  have us: "filter (\<lambda>b. \<not> cached b) looked = misses"
    using assms(3) by simp
  have res: "resolve h req =
     (case dispatch h req misses of
        None \<Rightarrow> (Inr (Entries looked), [], [])
      | Some (Inl e, calls) \<Rightarrow> (Inl e, [], calls)
      | Some (Inr (Html uncachedResponse), calls) \<Rightarrow>
          (Inr (Passthrough uncachedResponse), [], calls)
      | Some (Inr (Results uncachedResponse uncachedResponses), calls) \<Rightarrow>
          (case write_back h req uncachedResponse uncachedResponses misses looked of
             (Inl e, ps) \<Rightarrow> (Inl e, ps, calls)
           | (Inr es', ps) \<Rightarrow> (Inr (Entries es'), ps, calls)))"
    using assms(1,2) by (simp add: resolve_def Let_def us)
  note f = resolve_Entries [OF assms(1,2,4)]
  have len: "length es = length bodies"
    using f len0 by simp
  have payload: "(headers_get (req_headers req) ''content-type'' = Some ''application/json'' \<longrightarrow>
            (\<forall>cs. JSON_parse h (req_body req) = Inr (JArr cs) \<longrightarrow>
                  bodies = map (JSON_stringify h) cs) \<and>
            (\<forall>v. JSON_parse h (req_body req) = Inr v \<and> (\<forall>cs. v \<noteq> JArr cs) \<longrightarrow>
                  bodies = [JSON_stringify h v])) \<and>
          (headers_get (req_headers req) ''content-type'' \<noteq> Some ''application/json'' \<longrightarrow>
            bodies = [req_body req])"
    using assms(1) by (auto simp: split_bodies_def split: json.splits)
  have idx: "\<forall>i<length bodies. index (es ! i) = i \<and> body (es ! i) = bodies ! i"
  proof (intro allI impI)
    fix i assume i: "i < length bodies"
    have "index (es ! i) = index (looked ! i)" "body (es ! i) = body (looked ! i)"
      using f i len map_eq_nth [of index es looked i] map_eq_nth [of body es looked i] by simp_all
    then show "index (es ! i) = i \<and> body (es ! i) = bodies ! i"
      using lookup_all_index [OF assms(2) i] by simp
  qed
  have looked_idx: "\<forall>i<length looked. index (looked ! i) = i"
    using lookup_all_index [OF assms(2)] len0 by simp
  then have mi: "map index misses = filter (\<lambda>i. \<not> cached (looked ! i)) [0..<length bodies]"
    unfolding assms(3) using indices_of_filter [of looked "\<lambda>b. \<not> cached b"] len0 by simp
  have miss_idx: "index (misses ! k) < length looked \<and> looked ! index (misses ! k) = misses ! k"
    if "k < length misses" for k
  proof -
    have "misses ! k \<in> set looked"
      using that unfolding assms(3) by (metis filter_is_subset nth_mem subsetD)
    then obtain j where "j < length looked" "looked ! j = misses ! k"
      by (auto simp: in_set_conv_nth)
    then show ?thesis
      using looked_idx by auto
  qed
  have other: "update_responses xs (map Inr ts) ! i = xs ! i"
    if "i \<notin> set (map (\<lambda>t. fst (snd t)) ts)"
    for xs :: "entry list" and ts :: "(cache_put \<times> nat \<times> string) list" and i
    using that
  proof (induction ts arbitrary: xs)
    case Nil
    show ?case by simp
  next
    case (Cons t ts)
    obtain p j rb where t: "t = (p, j, rb)" by (cases t) auto
    have "j \<noteq> i" and "i \<notin> set (map (\<lambda>t. fst (snd t)) ts)"
      using Cons.prems t by auto
    then show ?case
      using Cons.IH [of "xs[j := (xs ! j)\<lparr>response := Some rb\<rparr>]"] t by simp
  qed
  have at: "response (update_responses xs (map Inr ts) ! fst (snd (ts ! k))) = Some (snd (snd (ts ! k)))"
    if "distinct (map (\<lambda>t. fst (snd t)) ts)" and "k < length ts"
      and "fst (snd (ts ! k)) < length xs"
    for xs :: "entry list" and ts :: "(cache_put \<times> nat \<times> string) list" and k
    using that
  proof (induction ts arbitrary: xs k)
    case Nil
    then show ?case by simp
  next
    case (Cons t ts)
    obtain p j rb where t: "t = (p, j, rb)" by (cases t) auto
    let ?xs = "xs[j := (xs ! j)\<lparr>response := Some rb\<rparr>]"
    show ?case
    proof (cases k)
      case 0
      have "j \<notin> set (map (\<lambda>t. fst (snd t)) ts)"
        using Cons.prems(1) t by simp
      then have "update_responses ?xs (map Inr ts) ! j = ?xs ! j"
        by (rule other)
      moreover have "j < length xs"
        using Cons.prems(3) 0 t by simp
      ultimately show ?thesis
        using 0 t by simp
    next
      case (Suc k')
      have "response (update_responses ?xs (map Inr ts) ! fst (snd (ts ! k'))) = Some (snd (snd (ts ! k')))"
        using Cons.prems Suc by (intro Cons.IH) auto
      then show ?thesis
        using Suc t by simp
    qed
  qed
  have backfill: "(\<forall>i<length looked. cached (looked ! i) \<longrightarrow> es ! i = looked ! i) \<and>
         (\<forall>k<length misses. response (es ! index (misses ! k)) = Some (JSON_stringify h (rs ! k)))"
    if d: "dispatch h req misses = Some (Inr (Results resp rs), calls0)" for resp rs calls0
  proof -
    let ?ws = "map (write_one h req resp) (zip misses rs)"
    have lrs: "length rs = length misses"
      using d by (rule dispatch_Results_length)
    from assms(4) obtain ts where ts: "sequence ?ws = Inr ts"
      and es: "es = update_responses looked ?ws"
      unfolding res d by (auto simp: write_back_def Let_def split: sum.splits)
    have ws: "?ws = map Inr ts"
      using ts by (rule sequence_Inr_D)
    then have lts: "length ts = length misses"
      using lrs by (metis length_map length_zip min.idem)
    have nth: "fst (snd (ts ! k)) = index (misses ! k) \<and>
               snd (snd (ts ! k)) = JSON_stringify h (rs ! k)"
      if "k < length misses" for k
    proof -
      have "?ws ! k = write_one h req resp (misses ! k, rs ! k)"
        using that lrs by simp
      moreover have "?ws ! k = Inr (ts ! k)"
        using ws that lts by simp
      ultimately show ?thesis
        using write_one_Inr by metis
    qed
    have ti: "map (\<lambda>t. fst (snd t)) ts = map index misses"
      by (rule nth_equalityI) (use lts nth in auto)
    have dist: "distinct (map (\<lambda>t. fst (snd t)) ts)"
      unfolding ti assms(3) using assms(2) by (rule distinct_uncached_indices)
    have kept: "\<forall>i<length looked. cached (looked ! i) \<longrightarrow> es ! i = looked ! i"
    proof (intro allI impI)
      fix i assume i: "i < length looked" and c: "cached (looked ! i)"
      have "i \<notin> set (map index misses)"
      proof
        assume "i \<in> set (map index misses)"
        then obtain k where k: "k < length misses" "index (misses ! k) = i"
          by (auto simp: in_set_conv_nth)
        then have "looked ! i = misses ! k"
          using miss_idx [OF k(1)] by simp
        moreover have "\<not> cached (misses ! k)"
          using k(1) nth_mem [of k misses] unfolding assms(3) by simp
        ultimately show False using c by simp
      qed
      then show "es ! i = looked ! i"
        unfolding es ws using ti other [of i ts looked] by simp
    qed
    have filled: "\<forall>k<length misses. response (es ! index (misses ! k)) = Some (JSON_stringify h (rs ! k))"
    proof (intro allI impI)
      fix k assume k: "k < length misses"
      have r: "fst (snd (ts ! k)) < length looked"
        using nth [OF k] miss_idx [OF k] by simp
      have "response (update_responses looked (map Inr ts) ! fst (snd (ts ! k))) = Some (snd (snd (ts ! k)))"
        using dist k lts r by (intro at) auto
      then show "response (es ! index (misses ! k)) = Some (JSON_stringify h (rs ! k))"
        unfolding es ws using nth [OF k] by simp
    qed
    show ?thesis using kept filled by simp
  qed
  have kept: "\<forall>i<length looked. cached (looked ! i) \<longrightarrow> es ! i = looked ! i"
  proof (cases "dispatch h req misses")
    case None
    then have "es = looked"
      using assms(4) unfolding res by simp
    then show ?thesis by simp
  next
    case (Some d)
    then obtain resp rs calls0 where
      "dispatch h req misses = Some (Inr (Results resp rs), calls0)"
      using assms(4) unfolding res
      by (cases d) (auto split: sum.splits dispatched.splits prod.splits)
    then show ?thesis
      using backfill by blast
  qed
  have hits: "\<forall>i<length bodies. lookup h req (i, bodies ! i) = Inr (looked ! i) \<and>
                            (cached (looked ! i) \<longrightarrow> es ! i = looked ! i)"
    using lookup_all_nth [OF assms(2)] kept len0 by simp
  have single: "response (es ! index b) = Some (JSON_stringify h v)"
    if m: "misses = [b]"
      and o: "origin_fetch h (if body b = [] then req else req\<lparr>req_body := body b\<rparr>) = Inr resp"
      and p: "JSON_parse h (resp_body resp) = Inr v" for b resp v
  proof -
    have d: "dispatch h req misses = Some (dispatch_single h req b)"
      using m by simp
    have "headers_get (resp_headers resp) ''content-type'' \<noteq> Some ''text/html''"
    proof
      assume "headers_get (resp_headers resp) ''content-type'' = Some ''text/html''"
      then have "fst (resolve h req) = Inr (Passthrough resp)"
        unfolding res d using o by (simp add: dispatch_single_def Let_def)
      then show False using assms(4) by simp
    qed
    then have "dispatch h req misses =
        Some (Inr (Results resp [v]), [if body b = [] then req else req\<lparr>req_body := body b\<rparr>])"
      unfolding d using o p by (simp add: dispatch_single_def Let_def)
    from backfill [OF this]
    have "response (es ! index (misses ! 0)) = Some (JSON_stringify h ([v] ! 0))"
      using m by simp
    then show ?thesis
      using m by simp
  qed
  have batch: "\<forall>k<length misses. response (es ! index (misses ! k)) = Some (JSON_stringify h (rs ! k))"
    if l: "1 < length misses"
      and s: "sequence (map (\<lambda>b. JSON_parse h (body b)) misses) = Inr parsed"
      and o: "origin_fetch h (req\<lparr>req_body := JSON_stringify h (JArr parsed)\<rparr>) = Inr resp"
      and p: "JSON_parse h (resp_body resp) = Inr (JArr rs)" for parsed resp rs
  proof -
    have d: "dispatch h req misses = Some (dispatch_batch h req misses)"
      using l by (rule dispatch_many)
    have db: "dispatch_batch h req misses =
        (if length misses \<noteq> length rs
         then Inl (Error ''Batched responses do not matched uncached requests.'')
         else Inr (Results resp rs),
         [req\<lparr>req_body := JSON_stringify h (JArr parsed)\<rparr>])"
      using s o p by (simp add: dispatch_batch_def Let_def)
    have lr: "length rs = length misses"
    proof (rule ccontr)
      assume "length rs \<noteq> length misses"
      then have "\<exists>e. fst (resolve h req) = Inl e"
        unfolding res d db by simp
      then show False using assms(4) by auto
    qed
    then have "dispatch h req misses =
        Some (Inr (Results resp rs), [req\<lparr>req_body := JSON_stringify h (JArr parsed)\<rparr>])"
      unfolding d db by simp
    from backfill [OF this] show ?thesis
      by simp
  qed
  have one: "resp_body r = (case response (es ! 0) of None \<Rightarrow> [] | Some s \<Rightarrow> s)"
    if "length bodies = 1"
    using that len assms(5)
    by (auto simp: assemble_def Let_def new_Response_def split: option.splits)
  have many: "\<exists>vs. resp_body r = JSON_stringify h (JArr vs) \<and> length vs = length bodies \<and>
                  (\<forall>i<length bodies. parse_response h (es ! i) = Inr (vs ! i))"
    if "length bodies \<noteq> 1"
  proof -
    from that len assms(5) obtain vs where vs: "sequence (map (parse_response h) es) = Inr vs"
      and r: "resp_body r = JSON_stringify h (JArr vs)"
      by (auto simp: assemble_def new_Response_def split: sum.splits if_splits)
    have eq: "map (parse_response h) es = map Inr vs"
      using vs by (rule sequence_Inr_D)
    then have lv: "length vs = length bodies"
      using len by (metis length_map)
    have "\<forall>i<length bodies. parse_response h (es ! i) = Inr (vs ! i)"
    proof (intro allI impI)
      fix i assume i: "i < length bodies"
      have "map (parse_response h) es ! i = (map Inr vs :: (error + json) list) ! i"
        using eq by simp
      then show "parse_response h (es ! i) = Inr (vs ! i)"
        using i len lv by simp
    qed
    then show ?thesis using r lv by blast
  qed
  have handler: "fetch h req = (Inr r, ps, calls)"
    if "toUpperCase (req_method req) = ''GET'' \<or> toUpperCase (req_method req) = ''POST''"
      and "origin = request_origin req"
    using that assms(4,5)
    by (auto simp: fetch_def fetch_try_def fetch_rpc_def Let_def finish_def fetch_outcome_def)
  show ?thesis
    using payload len idx hits mi single batch one many handler
    by (simp del: One_nat_def)
qed

text \<open>
  The theorem at a batch of two calls, both uncached, to which the origin answers with
  two results.
\<close>

theorem response_shape_follows_call_count_witness:
  \<open>split_bodies (demo_host cache_empty (origin_says ''[{"result":"x"},{"result":"y"}]'')) batch_of_two
     = Inr [''{"id":1,"method":"a"}'', ''{"id":2,"method":"b"}''] \<and>
   lookup_all (demo_host cache_empty (origin_says ''[{"result":"x"},{"result":"y"}]'')) batch_of_two
       [''{"id":1,"method":"a"}'', ''{"id":2,"method":"b"}'']
     = Inr [miss 0 ''{"id":1,"method":"a"}'', miss 1 ''{"id":2,"method":"b"}''] \<and>
   origin_fetch (demo_host cache_empty (origin_says ''[{"result":"x"},{"result":"y"}]'')) batch_of_two
     = Inr (json_response ''[{"result":"x"},{"result":"y"}]'') \<and>
   JSON_parse (demo_host cache_empty (origin_says ''[{"result":"x"},{"result":"y"}]''))
       ''[{"result":"x"},{"result":"y"}]''
     = Inr (JArr [result ''x'', result ''y'']) \<and>
   fst (resolve (demo_host cache_empty (origin_says ''[{"result":"x"},{"result":"y"}]'')) batch_of_two)
     = Inr (Entries [(miss 0 ''{"id":1,"method":"a"}'')\<lparr>response := Some ''{"result":"x"}''\<rparr>,
                     (miss 1 ''{"id":2,"method":"b"}'')\<lparr>response := Some ''{"result":"y"}''\<rparr>]) \<and>
   assemble (demo_host cache_empty (origin_says ''[{"result":"x"},{"result":"y"}]'')) []
       [(miss 0 ''{"id":1,"method":"a"}'')\<lparr>response := Some ''{"result":"x"}''\<rparr>,
        (miss 1 ''{"id":2,"method":"b"}'')\<lparr>response := Some ''{"result":"y"}''\<rparr>]
     = Inr \<lparr>resp_status = 200,
            resp_headers = [(''Content-Type'', ''application/json''), (''Cached'', ''[]'')],
            resp_body = ''[{"result":"x"},{"result":"y"}]''\<rparr> \<and>
   fst (fetch (demo_host cache_empty (origin_says ''[{"result":"x"},{"result":"y"}]'')) batch_of_two)
     = Inr \<lparr>resp_status = 200,
            resp_headers = [(''Content-Type'', ''application/json''), (''Cached'', ''[]'')],
            resp_body = ''[{"result":"x"},{"result":"y"}]''\<rparr> \<and>
   ''[{"result":"x"},{"result":"y"}]''
     = JSON_stringify (demo_host cache_empty (origin_says ''[{"result":"x"},{"result":"y"}]''))
         (JArr [result ''x'', result ''y''])\<close>
proof -
  let ?h = \<open>demo_host cache_empty (origin_says ''[{"result":"x"},{"result":"y"}]'')\<close>
  let ?bs = \<open>[''{"id":1,"method":"a"}'', ''{"id":2,"method":"b"}'']\<close>
  let ?looked = \<open>[miss 0 ''{"id":1,"method":"a"}'', miss 1 ''{"id":2,"method":"b"}'']\<close>
  let ?es = \<open>[(miss 0 ''{"id":1,"method":"a"}'')\<lparr>response := Some ''{"result":"x"}''\<rparr>,
             (miss 1 ''{"id":2,"method":"b"}'')\<lparr>response := Some ''{"result":"y"}''\<rparr>]\<close>
  let ?r = \<open>\<lparr>resp_status = 200,
            resp_headers = [(''Content-Type'', ''application/json''), (''Cached'', ''[]'')],
            resp_body = ''[{"result":"x"},{"result":"y"}]''\<rparr>\<close>
  have s: "split_bodies ?h batch_of_two = Inr ?bs"
    by (simp add: batch_of_two_def split_bodies_def demo_eval)
  have l: "lookup_all ?h batch_of_two ?bs = Inr ?looked"
    by (simp add: batch_of_two_def miss_def cache_empty_def demo_eval handler_eval)
  have m: "?looked = filter (\<lambda>b. \<not> cached b) ?looked"
    by (simp add: miss_def)
  have o: \<open>origin_fetch ?h batch_of_two = Inr (json_response ''[{"result":"x"},{"result":"y"}]'')\<close>
    by (simp add: demo_host_def origin_says_def)
  have p: \<open>JSON_parse ?h ''[{"result":"x"},{"result":"y"}]'' = Inr (JArr [result ''x'', result ''y''])\<close>
    by (simp add: demo_eval)
  have e: "fst (resolve ?h batch_of_two) = Inr (Entries ?es)"
    by (simp add: batch_of_two_def miss_def cache_empty_def origin_says_def demo_eval handler_eval)
  then have e': "resolve ?h batch_of_two =
      (Inr (Entries ?es), fst (snd (resolve ?h batch_of_two)), snd (snd (resolve ?h batch_of_two)))"
    by (metis prod.collapse)
  have a: "assemble ?h [] ?es = Inr ?r"
    by (simp add: miss_def demo_eval handler_eval origin_allowed_def ALLOWED_ORIGINS_def
        line_terminator.simps continuation_byte_def)
  have j: \<open>''[{"result":"x"},{"result":"y"}]'' = JSON_stringify ?h (JArr [result ''x'', result ''y''])\<close>
    by (simp add: demo_eval)
  have g: "toUpperCase (req_method batch_of_two) = ''GET'' \<or>
           toUpperCase (req_method batch_of_two) = ''POST''"
    by (simp add: batch_of_two_def demo_eval handler_eval)
  have q: "[] = request_origin batch_of_two"
    by (simp add: batch_of_two_def demo_eval handler_eval)
  from response_shape_follows_call_count [OF s l m e' a] g q
  have "fetch ?h batch_of_two =
      (Inr ?r, fst (snd (resolve ?h batch_of_two)), snd (snd (resolve ?h batch_of_two)))"
    by blast
  then have t: "fst (fetch ?h batch_of_two) = Inr ?r"
    by simp
  show ?thesis
    by (intro conjI s l o p e a t j)
qed

text \<open>
  Claim C2 as stated fails for a batch of one call: line 156 tests the number of
  entries, so the response to \<^verbatim>\<open>[{"id":1,"method":"a"}]\<close> is the bare result, not an array
  of one element.
\<close>

theorem batch_of_one_unwrapped_counterexample:
  \<open>JSON_parse (demo_host cache_empty (origin_says ''{"result":"ok"}'')) (req_body batch_of_one)
     = Inr (JArr [call 1 ''a'']) \<and>
   fst (fetch (demo_host cache_empty (origin_says ''{"result":"ok"}'')) batch_of_one)
     = Inr \<lparr>resp_status = 200,
            resp_headers = [(''Content-Type'', ''application/json''), (''Cached'', ''false'')],
            resp_body = ''{"result":"ok"}''\<rparr> \<and>
   ''{"result":"ok"}'' \<noteq>
     JSON_stringify (demo_host cache_empty (origin_says ''{"result":"ok"}'')) (JArr [result ''ok''])\<close>
  by (simp add: batch_of_one_def cache_empty_def origin_says_def demo_eval handler_eval
      origin_allowed_def ALLOWED_ORIGINS_def line_terminator.simps continuation_byte_def)

subsection \<open>C3: the response to a batch is validated\<close>

text \<open>
  Claim C3. Whenever more than one call is uncached, their bodies parse and the origin
  answers, the body of the answer is parsed as JSON: a parse failure is thrown; a value
  that is not an array throws the error of line 109; an array whose length differs from
  the number of uncached calls throws the error of line 115; in these cases the result
  is an error and carries no list of results. An array of the right length is the list
  of results.
\<close>

theorem batch_response_validated:
  assumes "1 < length uncachedBodies"
    and "sequence (map (\<lambda>b. JSON_parse h (body b)) uncachedBodies) = Inr parsed"
    and "out = req\<lparr>req_body := JSON_stringify h (JArr parsed)\<rparr>"
    and "origin_fetch h out = Inr uncachedResponse"
  shows "(\<forall>e. JSON_parse h (resp_body uncachedResponse) = Inl e \<longrightarrow>
            dispatch h req uncachedBodies = Some (Inl e, [out])) \<and>
         (\<forall>v. JSON_parse h (resp_body uncachedResponse) = Inr v \<and> (\<forall>xs. v \<noteq> JArr xs) \<longrightarrow>
            dispatch h req uncachedBodies =
              Some (Inl (Error ''Batched responses should be an array of responses.''), [out])) \<and>
         (\<forall>xs. JSON_parse h (resp_body uncachedResponse) = Inr (JArr xs) \<and>
               length xs \<noteq> length uncachedBodies \<longrightarrow>
            dispatch h req uncachedBodies =
              Some (Inl (Error ''Batched responses do not matched uncached requests.''), [out])) \<and>
         (\<forall>xs. JSON_parse h (resp_body uncachedResponse) = Inr (JArr xs) \<and>
               length xs = length uncachedBodies \<longrightarrow>
            dispatch h req uncachedBodies = Some (Inr (Results uncachedResponse xs), [out]))"
proof -
  have d: "dispatch h req uncachedBodies = Some (dispatch_batch h req uncachedBodies)"
    using assms(1) by (rule dispatch_many)
  show ?thesis
    unfolding d using assms(2,3,4)
    by (auto simp: dispatch_batch_def Let_def split: json.splits)
qed

text \<open>
  The theorem at two uncached calls, with an origin that answers with an object and an
  origin that answers with an array of one element.
\<close>

theorem batch_response_validated_witness:
  \<open>dispatch (demo_host cache_empty (origin_says ''{"result":"ok"}'')) batch_of_two
       [miss 0 ''{"id":1,"method":"a"}'', miss 1 ''{"id":2,"method":"b"}'']
     = Some (Inl (Error ''Batched responses should be an array of responses.''), [batch_of_two]) \<and>
   dispatch (demo_host cache_empty (origin_says ''[{"result":"x"}]'')) batch_of_two
       [miss 0 ''{"id":1,"method":"a"}'', miss 1 ''{"id":2,"method":"b"}'']
     = Some (Inl (Error ''Batched responses do not matched uncached requests.''), [batch_of_two])\<close>
proof -
  let ?h1 = \<open>demo_host cache_empty (origin_says ''{"result":"ok"}'')\<close>
  let ?h2 = \<open>demo_host cache_empty (origin_says ''[{"result":"x"}]'')\<close>
  let ?u = \<open>[miss 0 ''{"id":1,"method":"a"}'', miss 1 ''{"id":2,"method":"b"}'']\<close>
  have len: "1 < length ?u" by simp
  have p1: "sequence (map (\<lambda>b. JSON_parse ?h1 (body b)) ?u) = Inr [call 1 ''a'', call 2 ''b'']"
    and p2: "sequence (map (\<lambda>b. JSON_parse ?h2 (body b)) ?u) = Inr [call 1 ''a'', call 2 ''b'']"
    by (simp_all add: miss_def demo_eval)
  have o1: "batch_of_two = batch_of_two\<lparr>req_body := JSON_stringify ?h1 (JArr [call 1 ''a'', call 2 ''b''])\<rparr>"
    and o2: "batch_of_two = batch_of_two\<lparr>req_body := JSON_stringify ?h2 (JArr [call 1 ''a'', call 2 ''b''])\<rparr>"
    by (simp_all add: batch_of_two_def demo_eval)
  have f1: \<open>origin_fetch ?h1 batch_of_two = Inr (json_response ''{"result":"ok"}'')\<close>
    and f2: \<open>origin_fetch ?h2 batch_of_two = Inr (json_response ''[{"result":"x"}]'')\<close>
    by (simp_all add: demo_host_def origin_says_def)
  have r1: \<open>JSON_parse ?h1 (resp_body (json_response ''{"result":"ok"}'')) = Inr (result ''ok'')\<close>
    and r2: \<open>JSON_parse ?h2 (resp_body (json_response ''[{"result":"x"}]'')) = Inr (JArr [result ''x''])\<close>
    by (simp_all add: demo_eval)
  have n1: "\<forall>xs. result ''ok'' \<noteq> JArr xs"
    by (simp add: result_def)
  show ?thesis
    using batch_response_validated [OF len p1 o1 f1] batch_response_validated [OF len p2 o2 f2]
      r1 r2 n1
    by simp
qed

subsection \<open>C4: a count mismatch fails the request before any write\<close>

text \<open>
  Claim C4, as amended. Whenever more than one call is uncached and the origin answers
  with an array whose length differs from the number of uncached calls, the handler
  answers a \<^verbatim>\<open>GET\<close> or \<^verbatim>\<open>POST\<close> request with the text of the error of line 115, it has
  made the one batched request to the origin, and it has issued no \<^verbatim>\<open>cache.put\<close>.
\<close>

theorem count_mismatch_fails_without_writes:
  assumes "toUpperCase (req_method req) = ''GET'' \<or> toUpperCase (req_method req) = ''POST''"
    and "split_bodies h req = Inr bodies"
    and "lookup_all h req bodies = Inr es"
    and "1 < length (filter (\<lambda>b. \<not> cached b) es)"
    and "sequence (map (\<lambda>b. JSON_parse h (body b)) (filter (\<lambda>b. \<not> cached b) es)) = Inr parsed"
    and "origin_fetch h (req\<lparr>req_body := JSON_stringify h (JArr parsed)\<rparr>) = Inr resp"
    and "JSON_parse h (resp_body resp) = Inr (JArr xs)"
    and "length xs \<noteq> length (filter (\<lambda>b. \<not> cached b) es)"
  shows "fetch h req =
           (Inr (new_Response
                   (Some ''Error thrown Batched responses do not matched uncached requests.'')
                   200 []),
            [],
            [req\<lparr>req_body := JSON_stringify h (JArr parsed)\<rparr>])"
proof -
  let ?u = "filter (\<lambda>b. \<not> cached b) es"
  let ?out = "req\<lparr>req_body := JSON_stringify h (JArr parsed)\<rparr>"
  have "dispatch h req ?u = Some (dispatch_batch h req ?u)"
    using assms(4) by (rule dispatch_many)
  also have "dispatch_batch h req ?u =
      (Inl (Error ''Batched responses do not matched uncached requests.''), [?out])"
    using dispatch_batch_result [OF assms(5,6)] assms(7,8) by simp
  finally have d: "dispatch h req ?u =
      Some (Inl (Error ''Batched responses do not matched uncached requests.''), [?out])" .
  have "resolve h req =
      (Inl (Error ''Batched responses do not matched uncached requests.''), [], [?out])"
    using resolve_unfold [OF assms(2,3)] d by simp
  then show ?thesis
    using fetch_rpc_method [OF assms(1)]
    by (simp add: fetch_def fetch_rpc_def fetch_outcome_def Let_def)
qed

text \<open>
  The theorem at a batch of two uncached calls to which the origin answers with an
  array of one element.
\<close>

theorem count_mismatch_fails_without_writes_witness:
  \<open>fetch (demo_host cache_empty (origin_says ''[{"result":"x"}]'')) batch_of_two
     = (Inr \<lparr>resp_status = 200,
             resp_headers = [(''content-type'', ''text/plain;charset=UTF-8'')],
             resp_body = ''Error thrown Batched responses do not matched uncached requests.''\<rparr>,
        [], [batch_of_two])\<close>
proof -
  let ?h = \<open>demo_host cache_empty (origin_says ''[{"result":"x"}]'')\<close>
  let ?es = \<open>[miss 0 ''{"id":1,"method":"a"}'', miss 1 ''{"id":2,"method":"b"}'']\<close>
  have m: "toUpperCase (req_method batch_of_two) = ''GET'' \<or> toUpperCase (req_method batch_of_two) = ''POST''"
    by (simp add: batch_of_two_def demo_eval)
  have s: \<open>split_bodies ?h batch_of_two = Inr [''{"id":1,"method":"a"}'', ''{"id":2,"method":"b"}'']\<close>
    by (simp add: batch_of_two_def split_bodies_def demo_eval)
  have l: \<open>lookup_all ?h batch_of_two [''{"id":1,"method":"a"}'', ''{"id":2,"method":"b"}''] = Inr ?es\<close>
    by (simp add: batch_of_two_def miss_def cache_empty_def demo_eval handler_eval)
  have u: "filter (\<lambda>b. \<not> cached b) ?es = ?es"
    by (simp add: miss_def)
  have len: "1 < length (filter (\<lambda>b. \<not> cached b) ?es)"
    by (simp add: miss_def)
  have p: "sequence (map (\<lambda>b. JSON_parse ?h (body b)) (filter (\<lambda>b. \<not> cached b) ?es))
      = Inr [call 1 ''a'', call 2 ''b'']"
    by (simp add: miss_def demo_eval)
  have o: "batch_of_two\<lparr>req_body := JSON_stringify ?h (JArr [call 1 ''a'', call 2 ''b''])\<rparr> = batch_of_two"
    by (simp add: batch_of_two_def demo_eval)
  have f: \<open>origin_fetch ?h (batch_of_two\<lparr>req_body := JSON_stringify ?h (JArr [call 1 ''a'', call 2 ''b''])\<rparr>)
      = Inr (json_response ''[{"result":"x"}]'')\<close>
    by (simp add: demo_host_def origin_says_def)
  have r: \<open>JSON_parse ?h (resp_body (json_response ''[{"result":"x"}]'')) = Inr (JArr [result ''x''])\<close>
    by (simp add: demo_eval)
  have n: "length [result ''x''] \<noteq> length (filter (\<lambda>b. \<not> cached b) ?es)"
    by (simp add: miss_def)
  show ?thesis
    using count_mismatch_fails_without_writes [OF m s l len p f r n] o
    by (simp add: new_Response_def headers_get_def headers_append_def)
qed

text \<open>
  Claim C4 as stated fails when exactly one call is uncached: lines 119-131 take
  whatever JSON value the origin returns as the result of that call. A batch sent as
  \<^verbatim>\<open>text/plain\<close> is one call; the origin answers it with an array of two elements, one
  miss was dispatched, the request succeeds and one \<^verbatim>\<open>cache.put\<close> is issued.
\<close>

theorem single_miss_array_counterexample:
  \<open>lookup_all (demo_host cache_empty (origin_says ''[{"result":"x"},{"result":"y"}]'')) text_batch
       [req_body text_batch]
     = Inr [miss 0 (req_body text_batch)] \<and>
   JSON_parse (demo_host cache_empty (origin_says ''[{"result":"x"},{"result":"y"}]''))
       ''[{"result":"x"},{"result":"y"}]''
     = Inr (JArr [result ''x'', result ''y'']) \<and>
   fst (fetch (demo_host cache_empty (origin_says ''[{"result":"x"},{"result":"y"}]'')) text_batch)
     = Inr \<lparr>resp_status = 200,
            resp_headers = [(''Content-Type'', ''application/json''), (''Cached'', ''false'')],
            resp_body = ''[{"result":"x"},{"result":"y"}]''\<rparr> \<and>
   length (fst (snd (fetch (demo_host cache_empty (origin_says ''[{"result":"x"},{"result":"y"}]''))
                       text_batch))) = 1\<close>
  by (simp add: text_batch_def miss_def cache_empty_def origin_says_def demo_eval handler_eval
      origin_allowed_def ALLOWED_ORIGINS_def line_terminator.simps continuation_byte_def)

subsection \<open>C5: the \<^verbatim>\<open>Cached\<close> header\<close>

text \<open>
  Claim C5, as amended. When the handler reaches the assembly, every entry has the
  \<^verbatim>\<open>cached\<close> flag that the lookup gave it: the write-back changes the response of an
  entry and never its flag. The \<^verbatim>\<open>Cached\<close> header is the serialised flag of the only
  entry when there is exactly one call, and otherwise the serialised list of the
  indices of the entries that were hits at the lookup.
\<close>

theorem cached_header_reports_lookup_hits:
  assumes "split_bodies h req = Inr bodies"
    and "lookup_all h req bodies = Inr es0"
    and "resolve h req = (Inr (Entries es), ps, calls)"
    and "assemble h origin es = Inr r"
  shows "map cached es = map cached es0 \<and>
         headers_get (resp_headers r) ''Cached'' =
           Some (if length bodies = 1 then JSON_stringify h (JBool (cached (es0 ! 0)))
                 else JSON_stringify h
                        (JArr (map (\<lambda>i. JNum (of_nat i))
                                 (filter (\<lambda>i. cached (es0 ! i)) [0..<length bodies]))))"
proof -
  have len0: "length es0 = length bodies"
    using assms(2) by (rule lookup_all_length)
  note f = resolve_Entries [OF assms(1,2,3)]
  have len: "length es = length bodies"
    using f len0 by simp
  have c: "\<forall>i<length es. cached (es ! i) = cached (es0 ! i)"
    using f map_eq_nth [of cached es es0] by simp
  have idx: "\<forall>i<length es. index (es ! i) = i"
  proof (intro allI impI)
    fix i assume i: "i < length es"
    have "index (es ! i) = index (es0 ! i)"
      using f i map_eq_nth [of index es es0 i] by simp
    then show "index (es ! i) = i"
      using lookup_all_index [OF assms(2)] i len by simp
  qed
  have "map index (filter cached es) = filter (\<lambda>i. cached (es ! i)) [0..<length es]"
    using idx by (rule hit_indices)
  also have "\<dots> = filter (\<lambda>i. cached (es0 ! i)) [0..<length es]"
    using c by (intro filter_cong) auto
  finally have hits: "map index (filter cached es) =
      filter (\<lambda>i. cached (es0 ! i)) [0..<length bodies]"
    using len by simp
  have "map (\<lambda>b. JNum (of_nat (index b))) (filter cached es) =
        map (\<lambda>i. JNum (of_nat i)) (map index (filter cached es))"
    by (simp add: comp_def)
  then have m: "map (\<lambda>b. JNum (of_nat (index b))) (filter cached es) =
        map (\<lambda>i. JNum (of_nat i)) (filter (\<lambda>i. cached (es0 ! i)) [0..<length bodies])"
    using hits by simp
  have c0: "length bodies = 1 \<Longrightarrow> cached (es ! 0) = cached (es0 ! 0)"
    using c len by simp
  show ?thesis
    using f assemble_Cached [OF assms(4)] m c0 len by simp
qed

text \<open>
  The theorem at a batch of three calls of which the first and the third are in the
  cache: the header is \<^verbatim>\<open>[0,2]\<close>.
\<close>

theorem cached_header_reports_lookup_hits_witness:
  \<open>lookup_all (demo_host cache_a_c (origin_says ''{"result":"ok"}'')) batch_of_three
       [''{"id":1,"method":"a"}'', ''{"id":2,"method":"b"}'', ''{"id":3,"method":"c"}'']
     = Inr [hit 0 ''{"id":1,"method":"a"}'' ''{"result":"hit"}'',
            miss 1 ''{"id":2,"method":"b"}'',
            hit 2 ''{"id":3,"method":"c"}'' ''{"result":"hit"}''] \<and>
   fst (resolve (demo_host cache_a_c (origin_says ''{"result":"ok"}'')) batch_of_three)
     = Inr (Entries [hit 0 ''{"id":1,"method":"a"}'' ''{"result":"hit"}'',
                     (miss 1 ''{"id":2,"method":"b"}'')\<lparr>response := Some ''{"result":"ok"}''\<rparr>,
                     hit 2 ''{"id":3,"method":"c"}'' ''{"result":"hit"}'']) \<and>
   assemble (demo_host cache_a_c (origin_says ''{"result":"ok"}'')) []
       [hit 0 ''{"id":1,"method":"a"}'' ''{"result":"hit"}'',
        (miss 1 ''{"id":2,"method":"b"}'')\<lparr>response := Some ''{"result":"ok"}''\<rparr>,
        hit 2 ''{"id":3,"method":"c"}'' ''{"result":"hit"}'']
     = Inr \<lparr>resp_status = 200,
            resp_headers = [(''Content-Type'', ''application/json''), (''Cached'', ''[0,2]'')],
            resp_body = ''[{"result":"hit"},{"result":"ok"},{"result":"hit"}]''\<rparr> \<and>
   JSON_stringify (demo_host cache_a_c (origin_says ''{"result":"ok"}''))
       (JArr (map (\<lambda>i. JNum (of_nat i)) [0, 2])) = ''[0,2]''\<close>
proof -
  let ?h = \<open>demo_host cache_a_c (origin_says ''{"result":"ok"}'')\<close>
  let ?bs = \<open>[''{"id":1,"method":"a"}'', ''{"id":2,"method":"b"}'', ''{"id":3,"method":"c"}'']\<close>
  let ?looked = \<open>[hit 0 ''{"id":1,"method":"a"}'' ''{"result":"hit"}'',
            miss 1 ''{"id":2,"method":"b"}'',
            hit 2 ''{"id":3,"method":"c"}'' ''{"result":"hit"}'']\<close>
  let ?es = \<open>[hit 0 ''{"id":1,"method":"a"}'' ''{"result":"hit"}'',
            (miss 1 ''{"id":2,"method":"b"}'')\<lparr>response := Some ''{"result":"ok"}''\<rparr>,
            hit 2 ''{"id":3,"method":"c"}'' ''{"result":"hit"}'']\<close>
  let ?r = \<open>\<lparr>resp_status = 200,
            resp_headers = [(''Content-Type'', ''application/json''), (''Cached'', ''[0,2]'')],
            resp_body = ''[{"result":"hit"},{"result":"ok"},{"result":"hit"}]''\<rparr>\<close>
  have s: "split_bodies ?h batch_of_three = Inr ?bs"
    by (simp add: batch_of_three_def split_bodies_def demo_eval)
  have l: "lookup_all ?h batch_of_three ?bs = Inr ?looked"
    by (simp add: batch_of_three_def miss_def hit_def cache_a_c_def demo_eval handler_eval
        sha1_call_a sha1_call_b sha1_call_c)
  have e: "fst (resolve ?h batch_of_three) = Inr (Entries ?es)"
    unfolding resolve_unfold [OF s l]
    by (simp add: batch_of_three_def miss_def hit_def origin_says_def demo_eval handler_eval)
  then have e': "resolve ?h batch_of_three =
      (Inr (Entries ?es), fst (snd (resolve ?h batch_of_three)),
       snd (snd (resolve ?h batch_of_three)))"
    by (metis prod.collapse)
  have a: "assemble ?h [] ?es = Inr ?r"
    by (simp add: miss_def hit_def demo_eval handler_eval origin_allowed_def ALLOWED_ORIGINS_def
        line_terminator.simps continuation_byte_def)
  have j: "JSON_stringify ?h (JArr (map (\<lambda>i. JNum (of_nat i)) [0, 2])) = ''[0,2]''"
    by (simp add: demo_eval)
  show ?thesis
    using cached_header_reports_lookup_hits [OF s l e' a] l e a j
    by simp
qed

text \<open>
  Claim C5 as stated fails for a batch of one call: the header of the response to
  \<^verbatim>\<open>[{"id":1,"method":"a"}]\<close>, a hit, is \<^verbatim>\<open>true\<close> and not the list \<^verbatim>\<open>[0]\<close>.
\<close>

theorem one_hit_header_counterexample:
  \<open>JSON_parse (demo_host cache_a_c origin_down) (req_body batch_of_one)
     = Inr (JArr [call 1 ''a'']) \<and>
   lookup_all (demo_host cache_a_c origin_down) batch_of_one [''{"id":1,"method":"a"}'']
     = Inr [hit 0 ''{"id":1,"method":"a"}'' ''{"result":"hit"}''] \<and>
   fst (fetch (demo_host cache_a_c origin_down) batch_of_one)
     = Inr \<lparr>resp_status = 200,
            resp_headers = [(''Content-Type'', ''application/json''), (''Cached'', ''true'')],
            resp_body = ''{"result":"hit"}''\<rparr> \<and>
   ''true'' \<noteq> JSON_stringify (demo_host cache_a_c origin_down) (JArr [JNum 0])\<close>
  by (simp add: batch_of_one_def hit_def cache_a_c_def origin_down_def demo_eval handler_eval
      origin_allowed_def ALLOWED_ORIGINS_def line_terminator.simps continuation_byte_def sha1_call_a sha1_call_c)

subsection \<open>C6: what counts as a hit\<close>

text \<open>
  Claim C6, as amended. A call is a hit exactly when the cache returns a response whose
  body is not empty: an absent response and a response with an empty body are both a
  miss (\<^verbatim>\<open>!!responseBody\<close>, line 90).
\<close>

theorem lookup_hit_iff_nonempty:
  assumes "cacheKeyForRequestAndBody h req b = Inr k"
  shows "lookup h req (i, b) =
           Inr \<lparr>body = b, index = i, response = map_option resp_body (cache_match h k),
                cached = (\<exists>r. cache_match h k = Some r \<and> resp_body r \<noteq> [])\<rparr>"
  using assms by (cases "cache_match h k") (simp_all add: lookup_def truthy_def)

text \<open>
  The theorem at a call that is in the cache.
\<close>

theorem lookup_hit_iff_nonempty_witness:
  \<open>cacheKeyForRequestAndBody (demo_host cache_a_c origin_down)
       (demo_request ''POST'' ''application/json'' [] []) ''{"id":1,"method":"a"}''
     = Inr \<lparr>req_method = ''GET'',
            req_url = \<lparr>url_origin = ''https://rpc.example'',
                       pathname = ''/rpc2563a51b4d95e1a3da365c55e6ec7151'', search = []\<rparr>,
            req_headers = [(''content-type'', ''application/json''), (''origin'', [])],
            req_body = []\<rparr> \<and>
   lookup (demo_host cache_a_c origin_down)
       (demo_request ''POST'' ''application/json'' [] []) (0, ''{"id":1,"method":"a"}'')
     = Inr (hit 0 ''{"id":1,"method":"a"}'' ''{"result":"hit"}'')\<close>
proof -
  let ?h = "demo_host cache_a_c origin_down"
  let ?k = \<open>\<lparr>req_method = ''GET'',
            req_url = \<lparr>url_origin = ''https://rpc.example'',
                       pathname = ''/rpc2563a51b4d95e1a3da365c55e6ec7151'', search = []\<rparr>,
            req_headers = [(''content-type'', ''application/json''), (''origin'', [])],
            req_body = []\<rparr>\<close>
  have k: \<open>cacheKeyForRequestAndBody ?h (demo_request ''POST'' ''application/json'' [] [])
      ''{"id":1,"method":"a"}'' = Inr ?k\<close>
    by (simp add: cacheKeyForRequestAndBody_def normalize_body_def set_id_def demo_eval
        sha1_call_a)
  have c: \<open>cache_match ?h ?k = Some (json_response ''{"result":"hit"}'')\<close>
    by (simp add: cache_a_c_def demo_eval sha1_call_a)
  show ?thesis
    using lookup_hit_iff_nonempty [OF k, of 0] k c
    by (simp add: hit_def json_response_def)
qed

text \<open>
  Claim C6 as stated fails: with a cache that returns a response whose body is the
  empty string, the entry has the response \<^verbatim>\<open>''\<close> and is not a hit.
\<close>

theorem empty_cached_body_counterexample:
  \<open>cache_match (demo_host cache_blank origin_down) (demo_request ''GET'' [] [] [])
     = Some (json_response []) \<and>
   lookup (demo_host cache_blank origin_down) (demo_request ''GET'' [] [] []) (0, [])
     = Inr \<lparr>body = [], index = 0, response = Some [], cached = False\<rparr>\<close>
  by (simp add: lookup_def truthy_def cacheKeyForRequestAndBody_def normalize_body_def
      demo_host_def cache_blank_def json_response_def)

subsection \<open>C7: the key of a request without a body\<close>

text \<open>
  Claim C7, as amended. For an empty body the key is the URL of the request itself:
  line 36 appends nothing. A digest is appended exactly when the body that is hashed is
  not empty, and then the path of the key differs from the path of the request.
\<close>

theorem empty_body_key_is_bare_url:
  "cacheKeyForRequestAndBody h req [] =
     Inr \<lparr>req_method = ''GET'', req_url = req_url req, req_headers = req_headers req,
          req_body = []\<rparr> \<and>
   (normalize_body h b = Inr b1 \<and> b1 \<noteq> [] \<longrightarrow>
      (\<exists>k. cacheKeyForRequestAndBody h req b = Inr k \<and>
           pathname (req_url k) = pathname (req_url req) @ sha1 b1 \<and>
           pathname (req_url k) \<noteq> pathname (req_url req)))"
  by (simp add: cacheKeyForRequestAndBody_def normalize_body_def sha1_not_Nil)

text \<open>
  The theorem at the call \<^verbatim>\<open>{"id":1,"method":"a"}\<close>.
\<close>

theorem empty_body_key_is_bare_url_witness:
  \<open>normalize_body (demo_host cache_empty origin_down) ''{"id":1,"method":"a"}''
     = Inr ''{"id":-1,"method":"a"}'' \<and>
   cacheKeyForRequestAndBody (demo_host cache_empty origin_down)
       (demo_request ''POST'' ''application/json'' [] []) ''{"id":1,"method":"a"}''
     = Inr \<lparr>req_method = ''GET'',
            req_url = \<lparr>url_origin = ''https://rpc.example'',
                       pathname = ''/rpc2563a51b4d95e1a3da365c55e6ec7151'', search = []\<rparr>,
            req_headers = [(''content-type'', ''application/json''), (''origin'', [])],
            req_body = []\<rparr> \<and>
   ''/rpc2563a51b4d95e1a3da365c55e6ec7151'' \<noteq> ''/rpc''\<close>
proof -
  let ?h = "demo_host cache_empty origin_down"
  have n: \<open>normalize_body ?h ''{"id":1,"method":"a"}'' = Inr ''{"id":-1,"method":"a"}''\<close>
    by (simp add: normalize_body_def set_id_def demo_eval)
  have ne: \<open>''{"id":-1,"method":"a"}'' \<noteq> []\<close>
    by simp
  show ?thesis
    using empty_body_key_is_bare_url [of ?h "demo_request ''POST'' ''application/json'' [] []"
        \<open>''{"id":1,"method":"a"}''\<close> \<open>''{"id":-1,"method":"a"}''\<close>] n ne
    by (simp add: cacheKeyForRequestAndBody_def sha1_call_a demo_request_def)
qed

text \<open>
  Claim C7 as stated fails: the key of a \<^verbatim>\<open>GET\<close> request without a body has the path
  \<^verbatim>\<open>/rpc\<close> of the request, not that path followed by the digest of the empty string.
\<close>

theorem empty_body_key_counterexample:
  "cacheKeyForRequestAndBody (demo_host cache_empty origin_down)
       (demo_request ''GET'' [] [] []) []
     = Inr (demo_request ''GET'' [] [] []) \<and>
   pathname (req_url (demo_request ''GET'' [] [] [])) = ''/rpc'' \<and>
   ''/rpc'' @ sha1 [] = ''/rpcd41d8cd98f00b204e9800998ecf8427e'' \<and>
   ''/rpc'' \<noteq> ''/rpc'' @ sha1 []"
  by (simp add: cacheKeyForRequestAndBody_def normalize_body_def demo_request_def sha1_empty)

subsection \<open>C8: a single miss is forwarded as it is\<close>

text \<open>
  Claim C8. When exactly one call is uncached, the handler makes one request to the
  origin, through the branch of lines 119-131 and not the batched one; the request the
  origin receives is the inbound request with its body replaced by the raw body of that
  call, which is the body of the call at its index; and what the handler goes on with is
  the answer of the origin to that request: its failure, its HTML response, the failure
  to parse its body, or the parsed body, which is written to the cache under the key of
  that call and becomes the response of the entry of that call. (The body of a call of a
  batch is a serialised value and so not empty; for an empty body line 122 passes
  \<^verbatim>\<open>undefined\<close>.)
\<close>

theorem single_miss_sent_as_is:
  assumes "split_bodies h req = Inr bodies"
    and "lookup_all h req bodies = Inr es"
    and "filter (\<lambda>b. \<not> cached b) es = [b]"
    and "body b \<noteq> []"
  shows "snd (snd (resolve h req)) = [req\<lparr>req_body := body b\<rparr>] \<and>
         (toUpperCase (req_method req) = ''GET'' \<or> toUpperCase (req_method req) = ''POST'' \<longrightarrow>
            snd (snd (fetch h req)) = [req\<lparr>req_body := body b\<rparr>]) \<and>
         dispatch h req (filter (\<lambda>b. \<not> cached b) es) = Some (dispatch_single h req b) \<and>
         index b < length bodies \<and> body b = bodies ! index b \<and>
         (\<forall>e. origin_fetch h (req\<lparr>req_body := body b\<rparr>) = Inl e \<longrightarrow>
            resolve h req = (Inl e, [], [req\<lparr>req_body := body b\<rparr>])) \<and>
         (\<forall>r. origin_fetch h (req\<lparr>req_body := body b\<rparr>) = Inr r \<and>
               headers_get (resp_headers r) ''content-type'' = Some ''text/html'' \<longrightarrow>
            resolve h req = (Inr (Passthrough r), [], [req\<lparr>req_body := body b\<rparr>])) \<and>
         (\<forall>r e. origin_fetch h (req\<lparr>req_body := body b\<rparr>) = Inr r \<and>
               headers_get (resp_headers r) ''content-type'' \<noteq> Some ''text/html'' \<and>
               JSON_parse h (resp_body r) = Inl e \<longrightarrow>
            resolve h req = (Inl e, [], [req\<lparr>req_body := body b\<rparr>])) \<and>
         (\<forall>r v. origin_fetch h (req\<lparr>req_body := body b\<rparr>) = Inr r \<and>
               headers_get (resp_headers r) ''content-type'' \<noteq> Some ''text/html'' \<and>
               JSON_parse h (resp_body r) = Inr v \<longrightarrow>
            (\<exists>p. write_one h req r (b, v) = Inr (p, index b, JSON_stringify h v) \<and>
                 cacheKeyForRequestAndBody h req (body b) = Inr (fst p) \<and>
                 resp_body (snd p) = JSON_stringify h v \<and>
                 resolve h req =
                   (Inr (Entries (es[index b := b\<lparr>response := Some (JSON_stringify h v)\<rparr>])),
                    [p], [req\<lparr>req_body := body b\<rparr>])))"
proof -
  let ?out = "req\<lparr>req_body := body b\<rparr>"
  have d: "dispatch h req (filter (\<lambda>b. \<not> cached b) es) = Some (dispatch_single h req b)"
    using assms(3) by simp
  have ds: "dispatch_single h req b =
          ((case origin_fetch h ?out of
              Inl e \<Rightarrow> Inl e
            | Inr r \<Rightarrow>
                if headers_get (resp_headers r) ''content-type'' = Some ''text/html''
                then Inr (Html r)
                else (case JSON_parse h (resp_body r) of
                        Inl e \<Rightarrow> Inl e
                      | Inr v \<Rightarrow> Inr (Results r [v]))),
           [?out])"
    using assms(4) by (simp add: dispatch_single_def Let_def split: sum.splits)
  have res: "resolve h req =
     (case dispatch_single h req b of
        (Inl e, calls) \<Rightarrow> (Inl e, [], calls)
      | (Inr (Html uncachedResponse), calls) \<Rightarrow>
          (Inr (Passthrough uncachedResponse), [], calls)
      | (Inr (Results uncachedResponse uncachedResponses), calls) \<Rightarrow>
          (case write_back h req uncachedResponse uncachedResponses [b] es of
             (Inl e, ps) \<Rightarrow> (Inl e, ps, calls)
           | (Inr es', ps) \<Rightarrow> (Inr (Entries es'), ps, calls)))"
    using assms(1,2,3) by (simp add: resolve_def Let_def)
  note one = the_only_miss [OF assms(2,3)]
  have calls: "snd (snd (resolve h req)) = [?out]"
    unfolding res ds
    by (auto split: sum.splits dispatched.splits prod.splits)
  have handler: "snd (snd (fetch h req)) = [?out]"
    if "toUpperCase (req_method req) = ''GET'' \<or> toUpperCase (req_method req) = ''POST''"
    using that calls
    by (auto simp: fetch_def fetch_try_def fetch_rpc_def Let_def
             split: prod.splits sum.splits resolved.splits)
  have fail: "resolve h req = (Inl e, [], [?out])" if "origin_fetch h ?out = Inl e" for e
    unfolding res ds using that by simp
  have html: "resolve h req = (Inr (Passthrough r), [], [?out])"
    if "origin_fetch h ?out = Inr r"
      and "headers_get (resp_headers r) ''content-type'' = Some ''text/html''" for r
    unfolding res ds using that by simp
  have bad: "resolve h req = (Inl e, [], [?out])"
    if "origin_fetch h ?out = Inr r"
      and "headers_get (resp_headers r) ''content-type'' \<noteq> Some ''text/html''"
      and "JSON_parse h (resp_body r) = Inl e" for r e
    unfolding res ds using that by simp
  have good: "\<exists>p. write_one h req r (b, v) = Inr (p, index b, JSON_stringify h v) \<and>
                 cacheKeyForRequestAndBody h req (body b) = Inr (fst p) \<and>
                 resp_body (snd p) = JSON_stringify h v \<and>
                 resolve h req =
                   (Inr (Entries (es[index b := b\<lparr>response := Some (JSON_stringify h v)\<rparr>])),
                    [p], [?out])"
    if f: "origin_fetch h ?out = Inr r"
      and nh: "headers_get (resp_headers r) ''content-type'' \<noteq> Some ''text/html''"
      and pv: "JSON_parse h (resp_body r) = Inr v" for r v
  proof -
    obtain k where k: "cacheKeyForRequestAndBody h req (body b) = Inr k"
      using one by blast
    obtain p where w: "write_one h req r (b, v) = Inr (p, index b, JSON_stringify h v)"
      and pk: "fst p = k" and pb: "resp_body (snd p) = JSON_stringify h v"
      using k by (simp add: write_one_def Let_def new_Response_def)
    have "resolve h req =
        (Inr (Entries (es[index b := (es ! index b)\<lparr>response := Some (JSON_stringify h v)\<rparr>])),
         [p], [?out])"
      unfolding res ds using f nh pv w
      by (simp add: write_back_def)
    then show ?thesis
      using w pk pb k one by auto
  qed
  show ?thesis
    using calls handler d one fail html bad good by blast
qed

text \<open>
  The theorem at a batch of three calls with the first and the third in the cache, with
  an origin that answers only the request whose body is the second call, and with an
  origin that is down.
\<close>

theorem single_miss_sent_as_is_witness:
  \<open>split_bodies (demo_host cache_a_c (origin_expects ''{"id":2,"method":"b"}'' ''{"result":"ok"}'')) batch_of_three
     = Inr [''{"id":1,"method":"a"}'', ''{"id":2,"method":"b"}'', ''{"id":3,"method":"c"}''] \<and>
   lookup_all (demo_host cache_a_c (origin_expects ''{"id":2,"method":"b"}'' ''{"result":"ok"}'')) batch_of_three
       [''{"id":1,"method":"a"}'', ''{"id":2,"method":"b"}'', ''{"id":3,"method":"c"}'']
     = Inr [hit 0 ''{"id":1,"method":"a"}'' ''{"result":"hit"}'',
            miss 1 ''{"id":2,"method":"b"}'',
            hit 2 ''{"id":3,"method":"c"}'' ''{"result":"hit"}''] \<and>
   snd (snd (resolve (demo_host cache_a_c (origin_expects ''{"id":2,"method":"b"}'' ''{"result":"ok"}'')) batch_of_three))
     = [batch_of_three\<lparr>req_body := ''{"id":2,"method":"b"}''\<rparr>] \<and>
   snd (snd (fetch (demo_host cache_a_c (origin_expects ''{"id":2,"method":"b"}'' ''{"result":"ok"}'')) batch_of_three))
     = [batch_of_three\<lparr>req_body := ''{"id":2,"method":"b"}''\<rparr>] \<and>
   fst (resolve (demo_host cache_a_c (origin_expects ''{"id":2,"method":"b"}'' ''{"result":"ok"}'')) batch_of_three)
     = Inr (Entries [hit 0 ''{"id":1,"method":"a"}'' ''{"result":"hit"}'',
                     (miss 1 ''{"id":2,"method":"b"}'')\<lparr>response := Some ''{"result":"ok"}''\<rparr>,
                     hit 2 ''{"id":3,"method":"c"}'' ''{"result":"hit"}'']) \<and>
   origin_fetch (demo_host cache_a_c (origin_expects ''{"id":2,"method":"b"}'' ''{"result":"ok"}''))
       batch_of_three
     = Inl (NetworkError ''unexpected request'') \<and>
   resolve (demo_host cache_a_c origin_down) batch_of_three
     = (Inl (NetworkError ''connection refused''), [],
        [batch_of_three\<lparr>req_body := ''{"id":2,"method":"b"}''\<rparr>])\<close>
proof -
  let ?h = \<open>demo_host cache_a_c (origin_expects ''{"id":2,"method":"b"}'' ''{"result":"ok"}'')\<close>
  let ?d = \<open>demo_host cache_a_c origin_down\<close>
  let ?bs = \<open>[''{"id":1,"method":"a"}'', ''{"id":2,"method":"b"}'', ''{"id":3,"method":"c"}'']\<close>
  let ?looked = \<open>[hit 0 ''{"id":1,"method":"a"}'' ''{"result":"hit"}'',
            miss 1 ''{"id":2,"method":"b"}'',
            hit 2 ''{"id":3,"method":"c"}'' ''{"result":"hit"}'']\<close>
  let ?b = \<open>miss 1 ''{"id":2,"method":"b"}''\<close>
  let ?out = \<open>batch_of_three\<lparr>req_body := ''{"id":2,"method":"b"}''\<rparr>\<close>
  have s: "split_bodies ?h batch_of_three = Inr ?bs"
    and sd: "split_bodies ?d batch_of_three = Inr ?bs"
    by (simp_all add: batch_of_three_def split_bodies_def demo_eval)
  have l: "lookup_all ?h batch_of_three ?bs = Inr ?looked"
    and ld: "lookup_all ?d batch_of_three ?bs = Inr ?looked"
    by (simp_all add: batch_of_three_def miss_def hit_def cache_a_c_def demo_eval handler_eval
        sha1_call_a sha1_call_b sha1_call_c)
  have u: "filter (\<lambda>b. \<not> cached b) ?looked = [?b]"
    by (simp add: miss_def hit_def)
  have ne: "body ?b \<noteq> []"
    by (simp add: miss_def)
  have out: "batch_of_three\<lparr>req_body := body ?b\<rparr> = ?out"
    by (simp add: miss_def)
  note t = single_miss_sent_as_is [OF s l u ne, unfolded out]
  note td = single_miss_sent_as_is [OF sd ld u ne, unfolded out]
  have c: "snd (snd (resolve ?h batch_of_three)) = [?out]"
    using t by (rule conjunct1)
  have g: "toUpperCase (req_method batch_of_three) = ''GET'' \<or>
           toUpperCase (req_method batch_of_three) = ''POST''"
    by (simp add: batch_of_three_def demo_eval handler_eval)
  with t have c': "snd (snd (fetch ?h batch_of_three)) = [?out]"
    by blast
  have "origin_fetch ?d ?out = Inl (NetworkError ''connection refused'')"
    by (simp add: demo_host_def origin_down_def)
  with td have down: "resolve ?d batch_of_three = (Inl (NetworkError ''connection refused''), [], [?out])"
    by blast
  have o: \<open>origin_fetch ?h ?out = Inr (json_response ''{"result":"ok"}'')\<close>
    by (simp add: demo_host_def origin_expects_def)
  have nh: \<open>headers_get (resp_headers (json_response ''{"result":"ok"}'')) ''content-type''
      \<noteq> Some ''text/html''\<close>
    by (simp add: demo_eval)
  have p: \<open>JSON_parse ?h (resp_body (json_response ''{"result":"ok"}'')) = Inr (result ''ok'')\<close>
    by (simp add: demo_eval)
  from t o nh p obtain q where
    "resolve ?h batch_of_three =
       (Inr (Entries (?looked[index ?b := ?b\<lparr>response := Some (JSON_stringify ?h (result ''ok''))\<rparr>])),
        [q], [?out])"
    by blast
  then have "fst (resolve ?h batch_of_three) =
      Inr (Entries (?looked[index ?b := ?b\<lparr>response := Some (JSON_stringify ?h (result ''ok''))\<rparr>]))"
    by simp
  then have e: \<open>fst (resolve ?h batch_of_three) =
      Inr (Entries [hit 0 ''{"id":1,"method":"a"}'' ''{"result":"hit"}'',
                    (miss 1 ''{"id":2,"method":"b"}'')\<lparr>response := Some ''{"result":"ok"}''\<rparr>,
                    hit 2 ''{"id":3,"method":"c"}'' ''{"result":"hit"}''])\<close>
    by (simp add: miss_def demo_eval)
  have whole: "origin_fetch ?h batch_of_three = Inl (NetworkError ''unexpected request'')"
    by (simp add: demo_host_def origin_expects_def batch_of_three_def demo_request_def)
  show ?thesis
    by (intro conjI s l c c' e whole down)
qed

subsection \<open>C9: failures and the \<^verbatim>\<open>catch\<close>\<close>

text \<open>
  Claim C9 holds for \<^verbatim>\<open>GET\<close>, \<^verbatim>\<open>POST\<close> and \<^verbatim>\<open>OPTIONS\<close> (\<open>rpc_failure_is_caught\<close>,
  \<open>rpc_always_responds\<close>), and the code breaks it for every other method: the promise of
  \<^verbatim>\<open>fetch(request)\<close> is returned from the \<^verbatim>\<open>try\<close> block without \<^verbatim>\<open>await\<close>, so its rejection
  is not caught. A \<^verbatim>\<open>PUT\<close> request while the origin is down: the handler rejects with the
  network error and gives no response.
\<close>

theorem passthrough_failure_escapes:
  "fetch (demo_host cache_empty origin_down) (demo_request ''PUT'' ''application/json'' [] [])
     = (Inl (NetworkError ''connection refused''), [],
        [demo_request ''PUT'' ''application/json'' [] []])"
  by (simp add: fetch_def fetch_try_def fetch_outcome_def Let_def demo_host_def origin_down_def
      demo_request_def toUpperCase_def toUpperCase_char_def)

subsection \<open>C10: the patterns of the allowed origins have no anchor\<close>

text \<open>
  Claim C10. Every origin that contains \<^verbatim>\<open>daodao.zone\<close> is allowed, whatever precedes and
  follows it, and an assembled response for such an origin carries the header
  \<^verbatim>\<open>Access-Control-Allow-Origin\<close> with that origin.
\<close>

theorem unanchored_pattern_allows_substring:
  "origin_allowed (pre @ ''daodao.zone'' @ post) \<and>
   (assemble h (pre @ ''daodao.zone'' @ post) es = Inr r \<longrightarrow>
      headers_get (resp_headers r) ''Access-Control-Allow-Origin''
        = Some (pre @ ''daodao.zone'' @ post))"
proof (intro conjI impI)
  show a: "origin_allowed (pre @ ''daodao.zone'' @ post)"
    by (rule origin_allowed_substring)
  assume "assemble h (pre @ ''daodao.zone'' @ post) es = Inr r"
  then obtain c where "resp_headers r =
      [(''Content-Type'', ''application/json''), (''Cached'', c)]
      @ cors_headers (pre @ ''daodao.zone'' @ post)"
    using assemble_headers by blast
  then show "headers_get (resp_headers r) ''Access-Control-Allow-Origin''
      = Some (pre @ ''daodao.zone'' @ post)"
    using headers_get_allow_origin [OF a] by simp
qed

text \<open>
  The theorem at \<^verbatim>\<open>https://daodao.zone.evil.example\<close> and at \<^verbatim>\<open>https://notdaodao.zone\<close>.
\<close>

theorem unanchored_pattern_allows_substring_witness:
  \<open>origin_allowed ''https://daodao.zone.evil.example'' \<and>
   origin_allowed ''https://notdaodao.zone'' \<and>
   assemble (demo_host cache_empty origin_down) ''https://daodao.zone.evil.example''
       [\<lparr>body = [], index = 0, response = Some ''{"result":"ok"}'', cached = False\<rparr>]
     = Inr \<lparr>resp_status = 200,
            resp_headers = [(''Content-Type'', ''application/json''), (''Cached'', ''false''),
                            (''Access-Control-Allow-Origin'', ''https://daodao.zone.evil.example'')],
            resp_body = ''{"result":"ok"}''\<rparr> \<and>
   headers_get [(''Content-Type'', ''application/json''), (''Cached'', ''false''),
                (''Access-Control-Allow-Origin'', ''https://daodao.zone.evil.example'')]
       ''Access-Control-Allow-Origin''
     = Some ''https://daodao.zone.evil.example''\<close>
proof -
  let ?h = "demo_host cache_empty origin_down"
  let ?es = \<open>[\<lparr>body = [], index = 0, response = Some ''{"result":"ok"}'', cached = False\<rparr>]\<close>
  let ?r = \<open>\<lparr>resp_status = 200,
            resp_headers = [(''Content-Type'', ''application/json''), (''Cached'', ''false''),
                            (''Access-Control-Allow-Origin'', ''https://daodao.zone.evil.example'')],
            resp_body = ''{"result":"ok"}''\<rparr>\<close>
  have a: "assemble ?h (''https://'' @ ''daodao.zone'' @ ''.evil.example'') ?es = Inr ?r"
    by (simp add: demo_eval handler_eval origin_allowed_def ALLOWED_ORIGINS_def
        line_terminator.simps continuation_byte_def)
  show ?thesis
    using unanchored_pattern_allows_substring
      [of "''https://''" "''.evil.example''" ?h ?es ?r] a
      unanchored_pattern_allows_substring [of "''https://not''" "[]" ?h ?es ?r]
    by simp
qed

end
